theory Spec2Isabelle
  imports Complex_Main
begin

section \<open>Decimal rendering of integers, lower-casing, prefixes\<close>

text \<open>
  The f-strings of the library format allocator indices in decimal (\<open>f'M{index}'\<close>),
  the log reader is queried with lower-cased names (\<open>variable.lower()\<close>), and the
  constructors test reference prefixes with \<open>str.startswith\<close>.
\<close>

definition digit_char :: "nat \<Rightarrow> char" where
  "digit_char d = ''0123456789'' ! d"

fun str_nat :: "nat \<Rightarrow> string" where
  "str_nat n = (if n < 10 then [digit_char n] else str_nat (n div 10) @ [digit_char (n mod 10)])"

declare str_nat.simps [simp del]

definition str_int :: "int \<Rightarrow> string" where
  "str_int i = (if i < 0 then CHR ''-'' # str_nat (nat (- i)) else str_nat (nat i))"

definition lower_char :: "char \<Rightarrow> char" where
  "lower_char c =
     (case map_of (zip ''ABCDEFGHIJKLMNOPQRSTUVWXYZ'' ''abcdefghijklmnopqrstuvwxyz'') c of
        None \<Rightarrow> c
      | Some l \<Rightarrow> l)"

definition lower :: "string \<Rightarrow> string" where
  "lower s = map lower_char s"

definition startswith :: "string \<Rightarrow> string \<Rightarrow> bool" where
  "startswith s p = (take (length p) s = p)"

text \<open>Decoding a decimal string, used only to show that the rendering is injective.\<close>

definition dec :: "string \<Rightarrow> nat" where
  "dec s = foldl (\<lambda>a c. 10 * a + (of_char c - 48)) 0 s"

lemma digit_cases:
  "d < 10 \<Longrightarrow> d = 0 \<or> d = 1 \<or> d = 2 \<or> d = 3 \<or> d = 4 \<or> d = 5 \<or> d = 6 \<or> d = 7 \<or> d = 8 \<or> d = (9::nat)"
  by arith

lemma of_char_digit_char: "d < 10 \<Longrightarrow> (of_char (digit_char d) :: nat) = 48 + d"
  using digit_cases [of d] by (auto simp: digit_char_def)

lemma dec_snoc: "dec (s @ [c]) = 10 * dec s + (of_char c - 48)"
  by (simp add: dec_def)

lemma dec_str_nat: "dec (str_nat n) = n"
proof (induction n rule: str_nat.induct)
  case (1 n)
  show ?case
  proof (cases "n < 10")
    case True
    then show ?thesis
      by (subst str_nat.simps) (simp add: dec_def of_char_digit_char)
  next
    case False
    then have "dec (str_nat (n div 10)) = n div 10" using 1 by simp
    with False show ?thesis
      by (subst str_nat.simps) (simp add: dec_snoc of_char_digit_char)
  qed
qed

lemma str_nat_inj: "str_nat m = str_nat n \<Longrightarrow> m = n"
  by (metis dec_str_nat)

lemma digit_char_not_minus: "d < 10 \<Longrightarrow> digit_char d \<noteq> CHR ''-''"
  using digit_cases [of d] by (auto simp: digit_char_def)

lemma hd_str_nat: "\<exists>d cs. d < 10 \<and> str_nat n = digit_char d # cs"
proof (induction n rule: str_nat.induct)
  case (1 n)
  show ?case
  proof (cases "n < 10")
    case True
    then show ?thesis by (subst str_nat.simps) auto
  next
    case False
    then obtain d cs where "d < 10" "str_nat (n div 10) = digit_char d # cs"
      using 1 by blast
    with False show ?thesis by (subst str_nat.simps) auto
  qed
qed

lemma str_int_inj: "str_int i = str_int j \<Longrightarrow> i = j"
proof -
  assume eq: "str_int i = str_int j"
  have nm: "\<And>n cs. str_nat n \<noteq> CHR ''-'' # cs"
    using hd_str_nat digit_char_not_minus by (metis list.inject)
  show "i = j"
  proof (cases "i < 0")
    case True
    show ?thesis
    proof (cases "j < 0")
      case True
      with \<open>i < 0\<close> eq have "nat (- i) = nat (- j)"
        by (simp add: str_int_def str_nat_inj)
      with True \<open>i < 0\<close> show ?thesis by simp
    next
      case False
      with \<open>i < 0\<close> eq nm show ?thesis by (simp add: str_int_def) metis
    qed
  next
    case False
    show ?thesis
    proof (cases "j < 0")
      case True
      with False eq nm show ?thesis by (simp add: str_int_def)
    next
      case jf: False
      with False eq have "nat i = nat j" by (simp add: str_int_def str_nat_inj)
      with False jf show ?thesis by simp
    qed
  qed
qed

section \<open>Errors\<close>

text \<open>
  The exceptions of \<open>errors.py\<close>, the built-in exceptions the library raises or lets
  escape, and the two failures of the netlist store.
\<close>

datatype error =
    NotInjectedError
  | AlreadyInjectedError
  | NotActiveError
  | AlreadyActiveError
  | ObserverWasNotActiveError
  | ObserverExpectationUnknown
  | FaultDoesNotSupportComponent
  | ValueError
  | TypeError
  | IndexError
  | AttributeError
  | ComponentNotFound
  | ComponentConflict

section \<open>The netlist store\<close>

text \<open>
  Values handed to the store: strings (model names, values read back), numbers
  (resistances, rail voltages) and the pulse waveform, where \<open>Pulse a b t\<close> stands
  for the f-string \<open>PULSE({a} {b} {t})\<close>. Python floats are idealised as reals.
\<close>

datatype val = Str string | Num real | Pulse real real string

record Component =
  reference :: string
  ports :: "string list"
  cvalue :: val

datatype edge = FALL | RISE

text \<open>
  \<open>Meas var node thr e td\<close> is the directive
  \<open>.meas TRAN {var} FIND V({node}) WHEN V({node})={thr} {e}=last TD={td:.3e}\<close>;
  \<open>Directive s\<close> is any other line of directive text.
\<close>

datatype instruction = Meas string string real edge real | Directive string

record SpiceEditor =
  components :: "Component list"
  instructions :: "instruction list"

text \<open>
  Modelled from the spec: the netlist store (the \<open>SpiceEditor\<close> behind
  \<open>NetList.net\<close>) is an external collaborator that is not part of the sources.
  It holds components keyed by reference and supports lookup, ordered port lists,
  scalar values, insertion and removal by reference, directive insertion and
  pattern-based directive removal. A model name given at insertion is read back as the
  component's value. Lookup, removal and value update of an absent reference fail with
  \<open>ComponentNotFound\<close>; inserting a reference that is present fails with
  \<open>ComponentConflict\<close> (the store-level insertion conflict); a failed store
  operation changes nothing.
\<close>

definition get_components :: "SpiceEditor \<Rightarrow> string list" where
  "get_components ed = map reference (components ed)"

definition get_component :: "SpiceEditor \<Rightarrow> string \<Rightarrow> error + Component" where
  "get_component ed r =
     (case find (\<lambda>c. reference c = r) (components ed) of
        None \<Rightarrow> Inl ComponentNotFound
      | Some c \<Rightarrow> Inr c)"

definition get_component_nodes :: "SpiceEditor \<Rightarrow> string \<Rightarrow> error + string list" where
  "get_component_nodes ed r =
     (case get_component ed r of Inl e \<Rightarrow> Inl e | Inr c \<Rightarrow> Inr (ports c))"

definition get_component_value :: "SpiceEditor \<Rightarrow> string \<Rightarrow> error + val" where
  "get_component_value ed r =
     (case get_component ed r of Inl e \<Rightarrow> Inl e | Inr c \<Rightarrow> Inr (cvalue c))"

definition add_component :: "Component \<Rightarrow> SpiceEditor \<Rightarrow> error + SpiceEditor" where
  "add_component c ed =
     (if reference c \<in> set (get_components ed) then Inl ComponentConflict
      else Inr (ed\<lparr>components := components ed @ [c]\<rparr>))"

fun remove_first :: "string \<Rightarrow> Component list \<Rightarrow> Component list" where
  "remove_first r [] = []"
| "remove_first r (c # cs) = (if reference c = r then cs else c # remove_first r cs)"

fun set_first :: "string \<Rightarrow> val \<Rightarrow> Component list \<Rightarrow> Component list" where
  "set_first r v [] = []"
| "set_first r v (c # cs) =
     (if reference c = r then c\<lparr>cvalue := v\<rparr> # cs else c # set_first r v cs)"

definition net_remove_component :: "string \<Rightarrow> SpiceEditor \<Rightarrow> error + SpiceEditor" where
  "net_remove_component r ed =
     (if r \<in> set (get_components ed)
      then Inr (ed\<lparr>components := remove_first r (components ed)\<rparr>)
      else Inl ComponentNotFound)"

definition net_set_component_value :: "string \<Rightarrow> val \<Rightarrow> SpiceEditor \<Rightarrow> error + SpiceEditor" where
  "net_set_component_value r v ed =
     (if r \<in> set (get_components ed)
      then Inr (ed\<lparr>components := set_first r v (components ed)\<rparr>)
      else Inl ComponentNotFound)"

definition add_instructions :: "instruction list \<Rightarrow> SpiceEditor \<Rightarrow> SpiceEditor" where
  "add_instructions is ed = ed\<lparr>instructions := instructions ed @ is\<rparr>"

text \<open>
  The text an instruction starts with, up to its first formatted number. The removal
  pattern \<open>\.meas TRAN {node}_OBSERVE.*\<close> is matched at the start of a line,
  ignoring case; for a node name without regular-expression metacharacters that is a
  case-insensitive prefix test against this text.
\<close>

fun instruction_head :: "instruction \<Rightarrow> string" where
  "instruction_head (Meas var node thr e td) =
     ''.meas TRAN '' @ var @ '' FIND V('' @ node @ '') WHEN V('' @ node @ '')=''"
| "instruction_head (Directive s) = s"

definition matches_prefix :: "string \<Rightarrow> instruction \<Rightarrow> bool" where
  "matches_prefix p i = startswith (lower (instruction_head i)) (lower p)"

definition remove_Xinstruction :: "string \<Rightarrow> SpiceEditor \<Rightarrow> SpiceEditor" where
  "remove_Xinstruction p ed =
     ed\<lparr>instructions := filter (\<lambda>i. \<not> matches_prefix p i) (instructions ed)\<rparr>"


text \<open>The components carrying a given reference, in netlist order (a proof device).\<close>

definition view :: "SpiceEditor \<Rightarrow> string \<Rightarrow> Component list" where
  "view ed r = filter (\<lambda>c. reference c = r) (components ed)"

section \<open>The netlist handle and the reference allocator (base.py)\<close>

record NetList =
  net :: SpiceEditor
  ground_node :: string
  supply_node :: string
  vdd :: real
  vss :: real
  fet_descriptor_index :: int
  source_descriptor_index :: int
  resistor_descriptor_index :: int

definition NetList_init :: "SpiceEditor \<Rightarrow> string \<Rightarrow> string \<Rightarrow> real \<Rightarrow> real \<Rightarrow> NetList" where
  "NetList_init ed gnd_node sup_node vdd_v vss_v =
     \<lparr>net = ed, ground_node = gnd_node, supply_node = sup_node, vdd = vdd_v, vss = vss_v,
      fet_descriptor_index = - 1, source_descriptor_index = - 1,
      resistor_descriptor_index = - 1\<rparr>"

lemma finite_indices: "finite {j. i \<le> j \<and> p @ str_int j \<in> set refs}"
proof -
  have "inj (\<lambda>j. p @ str_int j)"
    by (rule injI) (simp add: str_int_inj)
  then have "finite ((\<lambda>j. p @ str_int j) -` set refs)"
    by (simp add: finite_vimageI)
  moreover have "{j. i \<le> j \<and> p @ str_int j \<in> set refs} \<subseteq> (\<lambda>j. p @ str_int j) -` set refs"
    by auto
  ultimately show ?thesis by (rule rev_finite_subset)
qed

text \<open>
  The loop \<open>while f'M{index}' in self.net.get_components(): index += 1\<close>. It ends
  because the store is finite and distinct indices render to distinct names.
\<close>

function scan_free :: "string list \<Rightarrow> string \<Rightarrow> int \<Rightarrow> int" where
  "scan_free refs p i = (if p @ str_int i \<in> set refs then scan_free refs p (i + 1) else i)"
  by pat_completeness auto
termination
proof (relation "measure (\<lambda>(refs, p, i). card {j. i \<le> j \<and> p @ str_int j \<in> set refs})")
  show "wf (measure (\<lambda>(refs, p, i). card {j. i \<le> j \<and> p @ str_int j \<in> set refs}))"
    by simp
next
  fix refs :: "string list" and p :: string and i :: int
  assume mem: "p @ str_int i \<in> set refs"
  have "i \<in> {j. i \<le> j \<and> p @ str_int j \<in> set refs}"
    using mem by simp
  moreover have "i \<notin> {j. i + 1 \<le> j \<and> p @ str_int j \<in> set refs}"
    by simp
  moreover have "{j. i + 1 \<le> j \<and> p @ str_int j \<in> set refs} \<subseteq> {j. i \<le> j \<and> p @ str_int j \<in> set refs}"
    by auto
  ultimately have "{j. i + 1 \<le> j \<and> p @ str_int j \<in> set refs} \<subset> {j. i \<le> j \<and> p @ str_int j \<in> set refs}"
    by blast
  then have "card {j. i + 1 \<le> j \<and> p @ str_int j \<in> set refs}
             < card {j. i \<le> j \<and> p @ str_int j \<in> set refs}"
    by (rule psubset_card_mono [OF finite_indices])
  then show "((refs, p, i + 1), (refs, p, i))
             \<in> measure (\<lambda>(refs, p, i). card {j. i \<le> j \<and> p @ str_int j \<in> set refs})"
    by simp
qed

declare scan_free.simps [simp del]

definition get_next_fet_descriptor_index :: "NetList \<Rightarrow> int \<times> NetList" where
  "get_next_fet_descriptor_index self =
     (let i = (if fet_descriptor_index self = - 1
               then scan_free (get_components (net self)) ''M'' 1
               else fet_descriptor_index self + 1)
      in (i, self\<lparr>fet_descriptor_index := i\<rparr>))"

definition get_next_source_descriptor_index :: "NetList \<Rightarrow> int \<times> NetList" where
  "get_next_source_descriptor_index self =
     (let i = (if source_descriptor_index self = - 1
               then scan_free (get_components (net self)) ''V'' 1
               else source_descriptor_index self + 1)
      in (i, self\<lparr>source_descriptor_index := i\<rparr>))"

definition get_next_resistor_descriptor_index :: "NetList \<Rightarrow> int \<times> NetList" where
  "get_next_resistor_descriptor_index self =
     (let i = (if resistor_descriptor_index self = - 1
               then scan_free (get_components (net self)) ''R'' 1
               else resistor_descriptor_index self + 1)
      in (i, self\<lparr>resistor_descriptor_index := i\<rparr>))"

text \<open>
  The mutating methods return the error raised (if any) together with the handle as the
  call left it: Python mutates in place, so what was done before a raise stays done.
\<close>

definition insert_component :: "Component \<Rightarrow> NetList \<Rightarrow> (error + string) \<times> NetList" where
  "insert_component c self =
     (case add_component c (net self) of
        Inl e \<Rightarrow> (Inl e, self)
      | Inr ed \<Rightarrow> (Inr (reference c), self\<lparr>net := ed\<rparr>))"

definition insert_fet :: "string \<Rightarrow> string \<Rightarrow> string \<Rightarrow> val \<Rightarrow> NetList \<Rightarrow> (error + string) \<times> NetList" where
  "insert_fet drain_node gate_node source_node model self =
     (case get_next_fet_descriptor_index self of
        (i, self1) \<Rightarrow>
          insert_component
            \<lparr>reference = ''M'' @ str_int i,
             ports = [drain_node, gate_node, source_node, source_node],
             cvalue = model\<rparr> self1)"

definition update_fet_ports ::
  "string \<Rightarrow> string \<Rightarrow> string \<Rightarrow> string \<Rightarrow> string \<Rightarrow> NetList \<Rightarrow> error option \<times> NetList" where
  "update_fet_ports ref drain_node gate_node source_node bulk_node self =
     (if \<not> startswith ref ''M'' then (Some ValueError, self)
      else case get_component (net self) ref of
        Inl e \<Rightarrow> (Some e, self)
      | Inr old_fet \<Rightarrow>
          let new_fet = \<lparr>reference = reference old_fet,
                         ports = [drain_node, gate_node, source_node, bulk_node],
                         cvalue = cvalue old_fet\<rparr>
          in (case net_remove_component ref (net self) of
                Inl e \<Rightarrow> (Some e, self)
              | Inr ed1 \<Rightarrow>
                  (case add_component new_fet ed1 of
                     Inl e \<Rightarrow> (Some e, self\<lparr>net := ed1\<rparr>)
                   | Inr ed2 \<Rightarrow> (None, self\<lparr>net := ed2\<rparr>))))"

definition insert_source :: "string \<Rightarrow> string \<Rightarrow> val \<Rightarrow> NetList \<Rightarrow> (error + string) \<times> NetList" where
  "insert_source plus_node minus_node v self =
     (case get_next_source_descriptor_index self of
        (i, self1) \<Rightarrow>
          insert_component
            \<lparr>reference = ''V'' @ str_int i, ports = [plus_node, minus_node], cvalue = v\<rparr> self1)"

definition insert_resistor :: "string \<Rightarrow> string \<Rightarrow> val \<Rightarrow> NetList \<Rightarrow> (error + string) \<times> NetList" where
  "insert_resistor node1 node2 v self =
     (case get_next_resistor_descriptor_index self of
        (i, self1) \<Rightarrow>
          insert_component
            \<lparr>reference = ''R'' @ str_int i, ports = [node1, node2], cvalue = v\<rparr> self1)"

text \<open>
  A reference held by a fault or utility is \<open>None\<close> until injection stored one.
  The store treats a reference as a string, so a call with \<open>None\<close> raises
  \<open>AttributeError\<close> before anything is changed.
\<close>

definition remove_component :: "string option \<Rightarrow> NetList \<Rightarrow> error option \<times> NetList" where
  "remove_component ref self =
     (case ref of
        None \<Rightarrow> (Some AttributeError, self)
      | Some r \<Rightarrow>
          (case net_remove_component r (net self) of
             Inl e \<Rightarrow> (Some e, self)
           | Inr ed \<Rightarrow> (None, self\<lparr>net := ed\<rparr>)))"

definition set_component_value :: "string option \<Rightarrow> val \<Rightarrow> NetList \<Rightarrow> error option \<times> NetList" where
  "set_component_value ref v self =
     (case ref of
        None \<Rightarrow> (Some AttributeError, self)
      | Some r \<Rightarrow>
          (case net_set_component_value r v (net self) of
             Inl e \<Rightarrow> (Some e, self)
           | Inr ed \<Rightarrow> (None, self\<lparr>net := ed\<rparr>)))"

section \<open>Faults (faults.py)\<close>

datatype state = STATE_NOT_INJECTED | STATE_INJECTED | STATE_ACTIVE

datatype fault_kind =
    DrainOpenFault | SourceOpenFault | GateOpenFault
  | GateDrainShort | GateSourceShort | DrainSourceShort
  | ResistorOpen | ResistorShort
  | CapacitorShort

text \<open>
  One record for the nine fault classes, tagged with the class. An attribute a class
  does not have stays at its initial \<open>None\<close> or \<open>[]\<close> and is never read by
  that class's methods.
\<close>

record Fault =
  kind :: fault_kind
  component :: string
  fault_state :: state
  open_resistor :: "string option"
  drain_coupling_resistor :: "string option"
  source_coupling_resistor :: "string option"
  short_resistor :: "string option"
  fault_free_ports :: "string list"
  fault_free_value :: "val option"

definition OPEN_RESISTANCE :: val where
  "OPEN_RESISTANCE = Num (10 ^ 11)"

definition SHORT_RESISTANCE :: val where
  "SHORT_RESISTANCE = Num 1"

definition COUPLING_RESISTANCE :: val where
  "COUPLING_RESISTANCE = Num (5 * 10 ^ 11)"

definition GATE_RESISTANCE :: val where
  "GATE_RESISTANCE = Num (10 ^ 12)"

fun required_prefix :: "fault_kind \<Rightarrow> string" where
  "required_prefix ResistorOpen = ''R''"
| "required_prefix ResistorShort = ''R''"
| "required_prefix CapacitorShort = ''C''"
| "required_prefix k = ''M''"

text \<open>
  The nine constructors: the prefix test, then the fault-free snapshot read from the
  store (the value for the two resistor faults, the port list for the others).
\<close>

definition Fault_init :: "fault_kind \<Rightarrow> NetList \<Rightarrow> string \<Rightarrow> error + Fault" where
  "Fault_init k netlist component_ref =
     (let self = \<lparr>kind = k, component = component_ref, fault_state = STATE_NOT_INJECTED,
                   open_resistor = None, drain_coupling_resistor = None,
                   source_coupling_resistor = None, short_resistor = None,
                   fault_free_ports = [], fault_free_value = None\<rparr>
      in if \<not> startswith component_ref (required_prefix k) then Inl FaultDoesNotSupportComponent
         else if k = ResistorOpen \<or> k = ResistorShort then
           (case get_component_value (net netlist) component_ref of
              Inl e \<Rightarrow> Inl e
            | Inr v \<Rightarrow> Inr (self\<lparr>fault_free_value := Some v\<rparr>))
         else
           (case get_component_nodes (net netlist) component_ref of
              Inl e \<Rightarrow> Inl e
            | Inr ps \<Rightarrow> Inr (self\<lparr>fault_free_ports := ps\<rparr>)))"

definition Fault_inject :: "Fault \<Rightarrow> error option \<times> Fault" where
  "Fault_inject self =
     (if fault_state self \<noteq> STATE_NOT_INJECTED then (Some AlreadyInjectedError, self)
      else (None, self\<lparr>fault_state := STATE_INJECTED\<rparr>))"

definition Fault_eject :: "Fault \<Rightarrow> error option \<times> Fault" where
  "Fault_eject self =
     (if fault_state self = STATE_NOT_INJECTED then (Some NotInjectedError, self)
      else (None, self\<lparr>fault_state := STATE_NOT_INJECTED\<rparr>))"

text \<open>The call \<open>update_fet_ports(ref, *ports)\<close> binds exactly four port arguments.\<close>

definition update_fet_ports_args :: "string \<Rightarrow> string list \<Rightarrow> NetList \<Rightarrow> error option \<times> NetList" where
  "update_fet_ports_args ref ps self =
     (case ps of
        [d, g, s, b] \<Rightarrow> update_fet_ports ref d g s b self
      | _ \<Rightarrow> (Some TypeError, self))"

definition open_node :: "string \<Rightarrow> string \<Rightarrow> string" where
  "open_node port component_ref = port @ ''_'' @ component_ref @ ''_open''"

definition DrainOpenFault_inject :: "Fault \<Rightarrow> NetList \<Rightarrow> error option \<times> Fault \<times> NetList" where
  "DrainOpenFault_inject self netlist =
     (case Fault_inject self of
        (Some e, self1) \<Rightarrow> (Some e, self1, netlist)
      | (None, self1) \<Rightarrow>
          let new_ports = fault_free_ports self1 in
          if length new_ports \<le> 0 then (Some IndexError, self1, netlist)
          else
            let new_ports = new_ports[0 := open_node (new_ports ! 0) (component self1)] in
            (case update_fet_ports_args (component self1) new_ports netlist of
               (Some e, nl1) \<Rightarrow> (Some e, self1, nl1)
             | (None, nl1) \<Rightarrow>
                 (case insert_resistor (new_ports ! 0) (fault_free_ports self1 ! 0)
                         OPEN_RESISTANCE nl1 of
                    (Inl e, nl2) \<Rightarrow> (Some e, self1, nl2)
                  | (Inr r, nl2) \<Rightarrow> (None, self1\<lparr>open_resistor := Some r\<rparr>, nl2))))"

text \<open>
  \<open>DrainOpenFault.eject\<close> and \<open>SourceOpenFault.eject\<close> have the same body:
  restore the ports, remove the resistor, then the base-class transition.
\<close>

definition OpenFault_eject :: "Fault \<Rightarrow> NetList \<Rightarrow> error option \<times> Fault \<times> NetList" where
  "OpenFault_eject self netlist =
     (case update_fet_ports_args (component self) (fault_free_ports self) netlist of
        (Some e, nl1) \<Rightarrow> (Some e, self, nl1)
      | (None, nl1) \<Rightarrow>
          (case remove_component (open_resistor self) nl1 of
             (Some e, nl2) \<Rightarrow> (Some e, self, nl2)
           | (None, nl2) \<Rightarrow>
               (case Fault_eject self of (r, self1) \<Rightarrow> (r, self1, nl2))))"

definition DrainOpenFault_eject :: "Fault \<Rightarrow> NetList \<Rightarrow> error option \<times> Fault \<times> NetList" where
  "DrainOpenFault_eject = OpenFault_eject"

definition SourceOpenFault_inject :: "Fault \<Rightarrow> NetList \<Rightarrow> error option \<times> Fault \<times> NetList" where
  "SourceOpenFault_inject self netlist =
     (case Fault_inject self of
        (Some e, self1) \<Rightarrow> (Some e, self1, netlist)
      | (None, self1) \<Rightarrow>
          let new_ports = fault_free_ports self1 in
          if length new_ports \<le> 3 then (Some IndexError, self1, netlist)
          else
            let new_ports = new_ports[2 := open_node (new_ports ! 2) (component self1)];
                new_ports = new_ports[3 := new_ports ! 2] in
            (case update_fet_ports_args (component self1) new_ports netlist of
               (Some e, nl1) \<Rightarrow> (Some e, self1, nl1)
             | (None, nl1) \<Rightarrow>
                 (case insert_resistor (new_ports ! 2) (fault_free_ports self1 ! 2)
                         OPEN_RESISTANCE nl1 of
                    (Inl e, nl2) \<Rightarrow> (Some e, self1, nl2)
                  | (Inr r, nl2) \<Rightarrow> (None, self1\<lparr>open_resistor := Some r\<rparr>, nl2))))"

definition SourceOpenFault_eject :: "Fault \<Rightarrow> NetList \<Rightarrow> error option \<times> Fault \<times> NetList" where
  "SourceOpenFault_eject = OpenFault_eject"

definition GateOpenFault_inject :: "Fault \<Rightarrow> NetList \<Rightarrow> error option \<times> Fault \<times> NetList" where
  "GateOpenFault_inject self netlist =
     (case Fault_inject self of
        (Some e, self1) \<Rightarrow> (Some e, self1, netlist)
      | (None, self1) \<Rightarrow>
          let new_ports = fault_free_ports self1 in
          if length new_ports \<le> 1 then (Some IndexError, self1, netlist)
          else
            let new_ports = new_ports[1 := open_node (new_ports ! 1) (component self1)];
                couple_port = new_ports ! 1 @ ''_couple'' in
            (case update_fet_ports_args (component self1) new_ports netlist of
               (Some e, nl1) \<Rightarrow> (Some e, self1, nl1)
             | (None, nl1) \<Rightarrow>
                 (case insert_resistor (new_ports ! 1) couple_port GATE_RESISTANCE nl1 of
                    (Inl e, nl2) \<Rightarrow> (Some e, self1, nl2)
                  | (Inr r1, nl2) \<Rightarrow>
                      let self2 = self1\<lparr>open_resistor := Some r1\<rparr> in
                      (case insert_resistor (new_ports ! 0) couple_port COUPLING_RESISTANCE nl2 of
                         (Inl e, nl3) \<Rightarrow> (Some e, self2, nl3)
                       | (Inr r2, nl3) \<Rightarrow>
                           let self3 = self2\<lparr>drain_coupling_resistor := Some r2\<rparr> in
                           (case insert_resistor (new_ports ! 2) couple_port
                                   COUPLING_RESISTANCE nl3 of
                              (Inl e, nl4) \<Rightarrow> (Some e, self3, nl4)
                            | (Inr r3, nl4) \<Rightarrow>
                                (None, self3\<lparr>source_coupling_resistor := Some r3\<rparr>, nl4))))))"

definition GateOpenFault_eject :: "Fault \<Rightarrow> NetList \<Rightarrow> error option \<times> Fault \<times> NetList" where
  "GateOpenFault_eject self netlist =
     (case update_fet_ports_args (component self) (fault_free_ports self) netlist of
        (Some e, nl1) \<Rightarrow> (Some e, self, nl1)
      | (None, nl1) \<Rightarrow>
          (case remove_component (open_resistor self) nl1 of
             (Some e, nl2) \<Rightarrow> (Some e, self, nl2)
           | (None, nl2) \<Rightarrow>
               (case remove_component (drain_coupling_resistor self) nl2 of
                  (Some e, nl3) \<Rightarrow> (Some e, self, nl3)
                | (None, nl3) \<Rightarrow>
                    (case remove_component (source_coupling_resistor self) nl3 of
                       (Some e, nl4) \<Rightarrow> (Some e, self, nl4)
                     | (None, nl4) \<Rightarrow>
                         (case Fault_eject self of (r, self1) \<Rightarrow> (r, self1, nl4))))))"

text \<open>
  The three transistor shorts and the capacitor short share one body up to the two
  port indices \<open>i\<close>, \<open>j\<close> read from the snapshot (in that order).
\<close>

definition Short_inject :: "nat \<Rightarrow> nat \<Rightarrow> Fault \<Rightarrow> NetList \<Rightarrow> error option \<times> Fault \<times> NetList" where
  "Short_inject i j self netlist =
     (case Fault_inject self of
        (Some e, self1) \<Rightarrow> (Some e, self1, netlist)
      | (None, self1) \<Rightarrow>
          if length (fault_free_ports self1) \<le> i \<or> length (fault_free_ports self1) \<le> j
          then (Some IndexError, self1, netlist)
          else
            (case insert_resistor (fault_free_ports self1 ! i) (fault_free_ports self1 ! j)
                    SHORT_RESISTANCE netlist of
               (Inl e, nl1) \<Rightarrow> (Some e, self1, nl1)
             | (Inr r, nl1) \<Rightarrow> (None, self1\<lparr>short_resistor := Some r\<rparr>, nl1)))"

definition Short_eject :: "Fault \<Rightarrow> NetList \<Rightarrow> error option \<times> Fault \<times> NetList" where
  "Short_eject self netlist =
     (case remove_component (short_resistor self) netlist of
        (Some e, nl1) \<Rightarrow> (Some e, self, nl1)
      | (None, nl1) \<Rightarrow> (case Fault_eject self of (r, self1) \<Rightarrow> (r, self1, nl1)))"

definition GateDrainShort_inject :: "Fault \<Rightarrow> NetList \<Rightarrow> error option \<times> Fault \<times> NetList" where
  "GateDrainShort_inject = Short_inject 1 0"

definition GateSourceShort_inject :: "Fault \<Rightarrow> NetList \<Rightarrow> error option \<times> Fault \<times> NetList" where
  "GateSourceShort_inject = Short_inject 1 2"

definition DrainSourceShort_inject :: "Fault \<Rightarrow> NetList \<Rightarrow> error option \<times> Fault \<times> NetList" where
  "DrainSourceShort_inject = Short_inject 0 2"

definition CapacitorShort_inject :: "Fault \<Rightarrow> NetList \<Rightarrow> error option \<times> Fault \<times> NetList" where
  "CapacitorShort_inject = Short_inject 0 1"

text \<open>
  \<open>ResistorOpen\<close> and \<open>ResistorShort\<close> write the value straight to the store
  (\<open>self.netlist.net.set_component_value\<close>); they differ in the value written.
\<close>

definition Resistor_inject :: "val \<Rightarrow> Fault \<Rightarrow> NetList \<Rightarrow> error option \<times> Fault \<times> NetList" where
  "Resistor_inject v self netlist =
     (case Fault_inject self of
        (Some e, self1) \<Rightarrow> (Some e, self1, netlist)
      | (None, self1) \<Rightarrow>
          (case net_set_component_value (component self1) v (net netlist) of
             Inl e \<Rightarrow> (Some e, self1, netlist)
           | Inr ed \<Rightarrow> (None, self1, netlist\<lparr>net := ed\<rparr>)))"

definition Resistor_eject :: "Fault \<Rightarrow> NetList \<Rightarrow> error option \<times> Fault \<times> NetList" where
  "Resistor_eject self netlist =
     (case fault_free_value self of
        None \<Rightarrow> (Some AttributeError, self, netlist)
      | Some v \<Rightarrow>
          (case net_set_component_value (component self) v (net netlist) of
             Inl e \<Rightarrow> (Some e, self, netlist)
           | Inr ed \<Rightarrow>
               (case Fault_eject self of (r, self1) \<Rightarrow> (r, self1, netlist\<lparr>net := ed\<rparr>))))"

text \<open>Method dispatch on the class of the fault.\<close>

fun fault_inject :: "Fault \<Rightarrow> NetList \<Rightarrow> error option \<times> Fault \<times> NetList" where
  "fault_inject self netlist =
     (case kind self of
        DrainOpenFault \<Rightarrow> DrainOpenFault_inject self netlist
      | SourceOpenFault \<Rightarrow> SourceOpenFault_inject self netlist
      | GateOpenFault \<Rightarrow> GateOpenFault_inject self netlist
      | GateDrainShort \<Rightarrow> GateDrainShort_inject self netlist
      | GateSourceShort \<Rightarrow> GateSourceShort_inject self netlist
      | DrainSourceShort \<Rightarrow> DrainSourceShort_inject self netlist
      | ResistorOpen \<Rightarrow> Resistor_inject OPEN_RESISTANCE self netlist
      | ResistorShort \<Rightarrow> Resistor_inject SHORT_RESISTANCE self netlist
      | CapacitorShort \<Rightarrow> CapacitorShort_inject self netlist)"

fun fault_eject :: "Fault \<Rightarrow> NetList \<Rightarrow> error option \<times> Fault \<times> NetList" where
  "fault_eject self netlist =
     (case kind self of
        DrainOpenFault \<Rightarrow> DrainOpenFault_eject self netlist
      | SourceOpenFault \<Rightarrow> SourceOpenFault_eject self netlist
      | GateOpenFault \<Rightarrow> GateOpenFault_eject self netlist
      | GateDrainShort \<Rightarrow> Short_eject self netlist
      | GateSourceShort \<Rightarrow> Short_eject self netlist
      | DrainSourceShort \<Rightarrow> Short_eject self netlist
      | ResistorOpen \<Rightarrow> Resistor_eject self netlist
      | ResistorShort \<Rightarrow> Resistor_eject self netlist
      | CapacitorShort \<Rightarrow> Short_eject self netlist)"

declare fault_inject.simps [simp del] fault_eject.simps [simp del]

section \<open>Test utilities (test\_utilities.py)\<close>

definition NMOS_MODEL :: val where
  "NMOS_MODEL = Str ''BSS123''"

definition PMOS_MODEL :: val where
  "PMOS_MODEL = Str ''BSS84''"

definition INJECTION_TIMING :: string where
  "INJECTION_TIMING = ''10n 10n 10n 1u''"

definition TRIGGER_TIME :: real where
  "TRIGGER_TIME = 10 / 10 ^ 9"

datatype utility_kind = MeasureObserver | InverterObserver | InjectionPoint

text \<open>
  One record for the three concrete utility classes, tagged with the class; the
  attributes of a class the object does not belong to stay at their initial values and
  are never read by its methods.
\<close>

record TestUtility =
  ukind :: utility_kind
  utility_state :: state
  meas_node :: string
  low_threshold :: real
  high_threshold :: real
  low_result_variable :: string
  high_result_variable :: string
  expectation :: "(int \<times> real) option"
  observer_node :: string
  pmos :: "string option"
  nmos :: "string option"
  node :: string
  pull_up :: bool
  fet :: "string option"
  source :: "string option"

definition RESULT_NAME_POSTFIX :: string where
  "RESULT_NAME_POSTFIX = ''_OBSERVE''"

definition LOW_VALUE :: int where
  "LOW_VALUE = - 1"

definition UNCERTAIN_VALUE :: int where
  "UNCERTAIN_VALUE = 0"

definition HIGH_VALUE :: int where
  "HIGH_VALUE = 1"

definition LOGIC_MARGIN :: real where
  "LOGIC_MARGIN = 1 / 10"

definition NODE_POSTFIX :: string where
  "NODE_POSTFIX = ''_INVERTER''"

definition NMOS_GATE_NODE_POSTFIX :: string where
  "NMOS_GATE_NODE_POSTFIX = ''_INJ_TRIG_DOWN''"

definition PMOS_GATE_NODE_POSTFIX :: string where
  "PMOS_GATE_NODE_POSTFIX = ''_INJ_TRIG_UP''"

definition MeasureObserver_init :: "NetList \<Rightarrow> string \<Rightarrow> real \<Rightarrow> real \<Rightarrow> TestUtility" where
  "MeasureObserver_init netlist obs_node low high =
     \<lparr>ukind = MeasureObserver, utility_state = STATE_NOT_INJECTED,
      meas_node = obs_node, low_threshold = low, high_threshold = high,
      low_result_variable = obs_node @ RESULT_NAME_POSTFIX @ ''_LOW'',
      high_result_variable = obs_node @ RESULT_NAME_POSTFIX @ ''_HIGH'',
      expectation = None,
      observer_node = [], pmos = None, nmos = None,
      node = [], pull_up = False, fet = None, source = None\<rparr>"

definition InverterObserver_init :: "NetList \<Rightarrow> string \<Rightarrow> TestUtility" where
  "InverterObserver_init netlist obs_node =
     (MeasureObserver_init netlist (obs_node @ NODE_POSTFIX)
        (vss netlist + LOGIC_MARGIN) (vdd netlist - LOGIC_MARGIN))
       \<lparr>ukind := InverterObserver, observer_node := obs_node, pmos := None, nmos := None\<rparr>"

definition InjectionPoint_init :: "NetList \<Rightarrow> string \<Rightarrow> bool \<Rightarrow> TestUtility" where
  "InjectionPoint_init netlist n up =
     \<lparr>ukind = InjectionPoint, utility_state = STATE_NOT_INJECTED,
      meas_node = [], low_threshold = 0, high_threshold = 0,
      low_result_variable = [], high_result_variable = [], expectation = None,
      observer_node = [], pmos = None, nmos = None,
      node = n, pull_up = up, fet = None, source = None\<rparr>"

subsection \<open>The base class\<close>

definition TestUtility_inject :: "TestUtility \<Rightarrow> error option \<times> TestUtility" where
  "TestUtility_inject self =
     (if utility_state self \<noteq> STATE_NOT_INJECTED then (Some AlreadyInjectedError, self)
      else (None, self\<lparr>utility_state := STATE_INJECTED\<rparr>))"

definition TestUtility_activate :: "TestUtility \<Rightarrow> error option \<times> TestUtility" where
  "TestUtility_activate self =
     (if utility_state self = STATE_NOT_INJECTED then (Some NotInjectedError, self)
      else if utility_state self = STATE_ACTIVE then (Some AlreadyActiveError, self)
      else (None, self\<lparr>utility_state := STATE_ACTIVE\<rparr>))"

definition TestUtility_deactivate :: "TestUtility \<Rightarrow> error option \<times> TestUtility" where
  "TestUtility_deactivate self =
     (if utility_state self = STATE_NOT_INJECTED then (Some NotInjectedError, self)
      else if utility_state self = STATE_INJECTED then (Some NotActiveError, self)
      else (None, self\<lparr>utility_state := STATE_INJECTED\<rparr>))"

subsection \<open>Activation and deactivation of the concrete classes\<close>

definition MeasureObserver_activate ::
  "TestUtility \<Rightarrow> NetList \<Rightarrow> error option \<times> TestUtility \<times> NetList" where
  "MeasureObserver_activate self netlist =
     (case TestUtility_activate self of
        (Some e, self1) \<Rightarrow> (Some e, self1, netlist)
      | (None, self1) \<Rightarrow>
          (None, self1,
           netlist\<lparr>net := add_instructions
              [Meas (low_result_variable self1 @ ''_FALL'') (meas_node self1)
                 (low_threshold self1) FALL TRIGGER_TIME,
               Meas (low_result_variable self1 @ ''_RISE'') (meas_node self1)
                 (low_threshold self1) RISE TRIGGER_TIME,
               Meas (high_result_variable self1 @ ''_FALL'') (meas_node self1)
                 (high_threshold self1) FALL TRIGGER_TIME,
               Meas (high_result_variable self1 @ ''_RISE'') (meas_node self1)
                 (high_threshold self1) RISE TRIGGER_TIME]
              (net netlist)\<rparr>))"

definition MeasureObserver_deactivate ::
  "TestUtility \<Rightarrow> NetList \<Rightarrow> error option \<times> TestUtility \<times> NetList" where
  "MeasureObserver_deactivate self netlist =
     (case TestUtility_deactivate self of
        (Some e, self1) \<Rightarrow> (Some e, self1, netlist)
      | (None, self1) \<Rightarrow>
          (None, self1,
           netlist\<lparr>net := remove_Xinstruction
              (''.meas TRAN '' @ meas_node self1 @ RESULT_NAME_POSTFIX) (net netlist)\<rparr>))"

definition InjectionPoint_activate ::
  "TestUtility \<Rightarrow> NetList \<Rightarrow> error option \<times> TestUtility \<times> NetList" where
  "InjectionPoint_activate self netlist =
     (case TestUtility_activate self of
        (Some e, self1) \<Rightarrow> (Some e, self1, netlist)
      | (None, self1) \<Rightarrow>
          (case (if pull_up self1
                 then set_component_value (source self1)
                        (Pulse (vdd netlist) (vss netlist) INJECTION_TIMING) netlist
                 else set_component_value (source self1)
                        (Pulse (vss netlist) (vdd netlist) INJECTION_TIMING) netlist) of
             (r, nl1) \<Rightarrow> (r, self1, nl1)))"

definition InjectionPoint_deactivate ::
  "TestUtility \<Rightarrow> NetList \<Rightarrow> error option \<times> TestUtility \<times> NetList" where
  "InjectionPoint_deactivate self netlist =
     (case TestUtility_deactivate self of
        (Some e, self1) \<Rightarrow> (Some e, self1, netlist)
      | (None, self1) \<Rightarrow>
          (case (if pull_up self1
                 then set_component_value (source self1) (Num (vdd netlist)) netlist
                 else set_component_value (source self1) (Num (vss netlist)) netlist) of
             (r, nl1) \<Rightarrow> (r, self1, nl1)))"

text \<open>Method dispatch on the class of the utility (\<open>self.activate()\<close>, \<open>self.deactivate()\<close>).\<close>

definition activate :: "TestUtility \<Rightarrow> NetList \<Rightarrow> error option \<times> TestUtility \<times> NetList" where
  "activate self netlist =
     (case ukind self of
        MeasureObserver \<Rightarrow> MeasureObserver_activate self netlist
      | InverterObserver \<Rightarrow> MeasureObserver_activate self netlist
      | InjectionPoint \<Rightarrow> InjectionPoint_activate self netlist)"

definition deactivate :: "TestUtility \<Rightarrow> NetList \<Rightarrow> error option \<times> TestUtility \<times> NetList" where
  "deactivate self netlist =
     (case ukind self of
        MeasureObserver \<Rightarrow> MeasureObserver_deactivate self netlist
      | InverterObserver \<Rightarrow> MeasureObserver_deactivate self netlist
      | InjectionPoint \<Rightarrow> InjectionPoint_deactivate self netlist)"

subsection \<open>Ejection\<close>

text \<open>
  \<open>TestUtility.eject\<close>: from \<open>STATE_ACTIVE\<close> it calls \<open>self.deactivate()\<close>, which
  is the method of the object's own class.
\<close>

definition TestUtility_eject ::
  "TestUtility \<Rightarrow> NetList \<Rightarrow> error option \<times> TestUtility \<times> NetList" where
  "TestUtility_eject self netlist =
     (if utility_state self = STATE_NOT_INJECTED then (Some NotInjectedError, self, netlist)
      else
        (case (if utility_state self = STATE_ACTIVE then deactivate self netlist
               else (None, self, netlist)) of
           (Some e, self1, nl1) \<Rightarrow> (Some e, self1, nl1)
         | (None, self1, nl1) \<Rightarrow> (None, self1\<lparr>utility_state := STATE_NOT_INJECTED\<rparr>, nl1)))"

subsection \<open>InverterObserver\<close>

definition InverterObserver_inject ::
  "TestUtility \<Rightarrow> NetList \<Rightarrow> error option \<times> TestUtility \<times> NetList" where
  "InverterObserver_inject self netlist =
     (case TestUtility_inject self of
        (Some e, self1) \<Rightarrow> (Some e, self1, netlist)
      | (None, self1) \<Rightarrow>
          (case insert_fet (observer_node self1 @ NODE_POSTFIX) (observer_node self1)
                  (supply_node netlist) PMOS_MODEL netlist of
             (Inl e, nl1) \<Rightarrow> (Some e, self1, nl1)
           | (Inr p, nl1) \<Rightarrow>
               let self2 = self1\<lparr>pmos := Some p\<rparr> in
               (case insert_fet (observer_node self2 @ NODE_POSTFIX) (observer_node self2)
                       (ground_node nl1) NMOS_MODEL nl1 of
                  (Inl e, nl2) \<Rightarrow> (Some e, self2, nl2)
                | (Inr n, nl2) \<Rightarrow> (None, self2\<lparr>nmos := Some n\<rparr>, nl2))))"

definition InverterObserver_eject ::
  "TestUtility \<Rightarrow> NetList \<Rightarrow> error option \<times> TestUtility \<times> NetList" where
  "InverterObserver_eject self netlist =
     (case remove_component (pmos self) netlist of
        (Some e, nl1) \<Rightarrow> (Some e, self, nl1)
      | (None, nl1) \<Rightarrow>
          (case remove_component (nmos self) nl1 of
             (Some e, nl2) \<Rightarrow> (Some e, self, nl2)
           | (None, nl2) \<Rightarrow> TestUtility_eject self nl2))"

subsection \<open>InjectionPoint\<close>

definition InjectionPoint_inject ::
  "TestUtility \<Rightarrow> NetList \<Rightarrow> error option \<times> TestUtility \<times> NetList" where
  "InjectionPoint_inject self netlist =
     (case TestUtility_inject self of
        (Some e, self1) \<Rightarrow> (Some e, self1, netlist)
      | (None, self1) \<Rightarrow>
          if pull_up self1 then
            (case insert_source (node self1 @ PMOS_GATE_NODE_POSTFIX) (ground_node netlist)
                    (Num (vdd netlist)) netlist of
               (Inl e, nl1) \<Rightarrow> (Some e, self1, nl1)
             | (Inr v, nl1) \<Rightarrow>
                 let self2 = self1\<lparr>source := Some v\<rparr> in
                 (case insert_fet (node self2) (node self2 @ PMOS_GATE_NODE_POSTFIX)
                         (supply_node nl1) PMOS_MODEL nl1 of
                    (Inl e, nl2) \<Rightarrow> (Some e, self2, nl2)
                  | (Inr m, nl2) \<Rightarrow> (None, self2\<lparr>fet := Some m\<rparr>, nl2)))
          else
            (case insert_source (node self1 @ NMOS_GATE_NODE_POSTFIX) (ground_node netlist)
                    (Num (vss netlist)) netlist of
               (Inl e, nl1) \<Rightarrow> (Some e, self1, nl1)
             | (Inr v, nl1) \<Rightarrow>
                 let self2 = self1\<lparr>source := Some v\<rparr> in
                 (case insert_fet (node self2) (node self2 @ NMOS_GATE_NODE_POSTFIX)
                         (ground_node nl1) NMOS_MODEL nl1 of
                    (Inl e, nl2) \<Rightarrow> (Some e, self2, nl2)
                  | (Inr m, nl2) \<Rightarrow> (None, self2\<lparr>fet := Some m\<rparr>, nl2))))"

definition InjectionPoint_eject ::
  "TestUtility \<Rightarrow> NetList \<Rightarrow> error option \<times> TestUtility \<times> NetList" where
  "InjectionPoint_eject self netlist =
     (case remove_component (fet self) netlist of
        (Some e, nl1) \<Rightarrow> (Some e, self, nl1)
      | (None, nl1) \<Rightarrow>
          (case remove_component (source self) nl1 of
             (Some e, nl2) \<Rightarrow> (Some e, self, nl2)
           | (None, nl2) \<Rightarrow> TestUtility_eject self nl2))"

text \<open>Method dispatch for \<open>inject\<close> and \<open>eject\<close>; \<open>MeasureObserver\<close> inherits both.\<close>

definition inject :: "TestUtility \<Rightarrow> NetList \<Rightarrow> error option \<times> TestUtility \<times> NetList" where
  "inject self netlist =
     (case ukind self of
        MeasureObserver \<Rightarrow> (case TestUtility_inject self of (r, self1) \<Rightarrow> (r, self1, netlist))
      | InverterObserver \<Rightarrow> InverterObserver_inject self netlist
      | InjectionPoint \<Rightarrow> InjectionPoint_inject self netlist)"

definition eject :: "TestUtility \<Rightarrow> NetList \<Rightarrow> error option \<times> TestUtility \<times> NetList" where
  "eject self netlist =
     (case ukind self of
        MeasureObserver \<Rightarrow> TestUtility_eject self netlist
      | InverterObserver \<Rightarrow> InverterObserver_eject self netlist
      | InjectionPoint \<Rightarrow> InjectionPoint_eject self netlist)"

subsection \<open>Signal interpretation (MeasureObserver)\<close>

text \<open>
  The simulation results are inputs. The log maps lower-case measurement names to the
  values read from the log file; \<open>log[name]\<close> raises \<open>IndexError\<close> for a
  name the log does not hold (a measurement that failed to trigger is not in the log). The operating-point trace, when there is one, gives the
  first data point of the trace named \<open>V(node)\<close>; it is taken to hold every node it
  is asked for. The transient trace \<open>raw\<close> is not read by any method and is left out.
\<close>

type_synonym LTSpiceLogReader = "string \<Rightarrow> real list option"

type_synonym RawRead = "string \<Rightarrow> real"

definition log_getitem :: "LTSpiceLogReader \<Rightarrow> string \<Rightarrow> error + real list" where
  "log_getitem log_reader key =
     (case log_reader key of None \<Rightarrow> Inl IndexError | Some vs \<Rightarrow> Inr vs)"

text \<open>
  \<open>MeasureObserver._get_measurement\<close>: \<open>log[variable.lower()][0]\<close>, with the default
  returned when either subscript raises \<open>IndexError\<close>.
\<close>

definition get_measurement :: "LTSpiceLogReader \<Rightarrow> string \<Rightarrow> real \<Rightarrow> error + real" where
  "get_measurement log_reader variable default_value =
     (case log_getitem log_reader (lower variable) of
        Inl e \<Rightarrow> (if e = IndexError then Inr default_value else Inl e)
      | Inr [] \<Rightarrow> Inr default_value
      | Inr (v # vs) \<Rightarrow> Inr v)"

text \<open>\<open>MeasureObserver._observe\<close>.\<close>

definition observe_internal ::
  "TestUtility \<Rightarrow> LTSpiceLogReader \<Rightarrow> RawRead option \<Rightarrow> error + (int \<times> real)" where
  "observe_internal self log_reader raw_op =
     (case get_measurement log_reader (low_result_variable self @ ''_FALL_at'') (- 1) of
        Inl e \<Rightarrow> Inl e
      | Inr low_fall \<Rightarrow>
     (case get_measurement log_reader (low_result_variable self @ ''_RISE_at'') (- 1) of
        Inl e \<Rightarrow> Inl e
      | Inr low_rise \<Rightarrow>
     (case get_measurement log_reader (high_result_variable self @ ''_FALL_at'') (- 1) of
        Inl e \<Rightarrow> Inl e
      | Inr high_fall \<Rightarrow>
     (case get_measurement log_reader (high_result_variable self @ ''_RISE_at'') (- 1) of
        Inl e \<Rightarrow> Inl e
      | Inr high_rise \<Rightarrow>
          if low_fall > low_rise then Inr (LOW_VALUE, low_fall - TRIGGER_TIME)
          else if high_rise > high_fall then Inr (HIGH_VALUE, high_rise - TRIGGER_TIME)
          else
            (case raw_op of
               Some op \<Rightarrow>
                 let initial_value = op (''V('' @ meas_node self @ '')'') in
                 if initial_value < low_threshold self then Inr (LOW_VALUE, - 1)
                 else if initial_value > high_threshold self then Inr (HIGH_VALUE, - 1)
                 else Inr (UNCERTAIN_VALUE, - 1)
             | None \<Rightarrow> Inr (UNCERTAIN_VALUE, - 1))))))"

text \<open>What \<open>observe_expected\<close> prints: the expectation line and the panic line.\<close>

datatype message = ExpectationLine string int real | PanicLine string

definition observe_expected ::
  "TestUtility \<Rightarrow> LTSpiceLogReader \<Rightarrow> RawRead option \<Rightarrow> error option \<times> TestUtility \<times> message list" where
  "observe_expected self log_reader raw_op =
     (case observe_internal self log_reader raw_op of
        Inl e \<Rightarrow> (Some e, self, [])
      | Inr obs \<Rightarrow>
          let self1 = self\<lparr>expectation := Some obs\<rparr>;
              out = [ExpectationLine (meas_node self1) (fst obs) (snd obs)]
          in if fst obs = UNCERTAIN_VALUE
             then (None, self1, out @ [PanicLine (meas_node self1)])
             else (None, self1, out))"

definition observe ::
  "TestUtility \<Rightarrow> LTSpiceLogReader \<Rightarrow> RawRead option \<Rightarrow> error + (bool \<times> real list)" where
  "observe self log_reader raw_op =
     (case expectation self of
        None \<Rightarrow> Inl ObserverExpectationUnknown
      | Some expected \<Rightarrow>
          (case observe_internal self log_reader raw_op of
             Inl e \<Rightarrow> Inl e
           | Inr observation \<Rightarrow>
               Inr (fst observation = fst expected, [snd observation - snd expected])))"

section \<open>Example inputs\<close>

text \<open>A netlist with two transistors, a resistor and a capacitor.\<close>

definition example_netlist :: NetList where
  "example_netlist =
     NetList_init
       \<lparr>components =
          [\<lparr>reference = ''M1'', ports = [''out'', ''in'', ''0'', ''0''], cvalue = Str ''BSS123''\<rparr>,
           \<lparr>reference = ''M2'', ports = [''out'', ''in'', ''VDD'', ''VDD''], cvalue = Str ''BSS84''\<rparr>,
           \<lparr>reference = ''R1'', ports = [''out'', ''0''], cvalue = Str ''10k''\<rparr>,
           \<lparr>reference = ''C1'', ports = [''out'', ''0''], cvalue = Str ''1p''\<rparr>],
        instructions = [Directive ''.tran 1u'']\<rparr>
       ''0'' ''VDD'' (33 / 10) 0"

text \<open>An observer on node \<open>out\<close> with thresholds 0.8 V and 2.5 V.\<close>

definition example_observer :: TestUtility where
  "example_observer =
     MeasureObserver_init
       (NetList_init \<lparr>components = [], instructions = []\<rparr> ''0'' ''VDD'' (33 / 10) 0)
       ''out'' (8 / 10) (25 / 10)"

text \<open>A drain-open fault on transistor M1 of the example netlist, as its constructor builds it.\<close>

definition example_drain_open :: Fault where
  "example_drain_open =
     \<lparr>kind = DrainOpenFault, component = ''M1'', fault_state = STATE_NOT_INJECTED,
      open_resistor = None, drain_coupling_resistor = None, source_coupling_resistor = None,
      short_resistor = None, fault_free_ports = [''out'', ''in'', ''0'', ''0''],
      fault_free_value = None\<rparr>"

text \<open>A store with a gap in its transistor references: M1 and M3, but no M2.\<close>

definition gap_netlist :: NetList where
  "gap_netlist =
     NetList_init
       \<lparr>components =
          [\<lparr>reference = ''M1'', ports = [''out'', ''in'', ''0'', ''0''], cvalue = Str ''BSS123''\<rparr>,
           \<lparr>reference = ''M3'', ports = [''out'', ''in'', ''VDD'', ''VDD''], cvalue = Str ''BSS84''\<rparr>],
        instructions = []\<rparr>
       ''0'' ''VDD'' (33 / 10) 0"

text \<open>
  A driver for the allocator (not a function of the library): \<open>n\<close> calls of
  \<open>insert_fet\<close> in a row, all on the same nodes, stopping at the first error; the
  references are collected in the order they were handed out.
\<close>

fun insert_fets ::
  "nat \<Rightarrow> string \<Rightarrow> string \<Rightarrow> string \<Rightarrow> val \<Rightarrow> NetList \<Rightarrow> (error + string list) \<times> NetList" where
  "insert_fets 0 d g s m nl = (Inr [], nl)"
| "insert_fets (Suc n) d g s m nl =
     (case insert_fet d g s m nl of
        (Inl e, nl1) \<Rightarrow> (Inl e, nl1)
      | (Inr r, nl1) \<Rightarrow>
          (case insert_fets n d g s m nl1 of
             (Inl e, nl2) \<Rightarrow> (Inl e, nl2)
           | (Inr rs, nl2) \<Rightarrow> (Inr (r # rs), nl2)))"

section \<open>Signal interpretation: properties\<close>

lemma get_measurement_total:
  "get_measurement log_reader variable d =
     Inr (case log_reader (lower variable) of None \<Rightarrow> d | Some [] \<Rightarrow> d | Some (v # vs) \<Rightarrow> v)"
  by (simp add: get_measurement_def log_getitem_def split: option.splits list.splits)

lemma observe_internal_total: "\<exists>obs. observe_internal self log_reader raw_op = Inr obs"
  by (simp add: observe_internal_def get_measurement_total Let_def split: option.splits)

lemma observe_internal_expectation:
  "observe_internal (self\<lparr>expectation := x\<rparr>) log_reader raw_op =
   observe_internal self log_reader raw_op"
  by (simp add: observe_internal_def get_measurement_total Let_def split: option.splits)

lemma example_observer_simps:
  "low_result_variable example_observer = ''out_OBSERVE_LOW''"
  "high_result_variable example_observer = ''out_OBSERVE_HIGH''"
  "meas_node example_observer = ''out''"
  "low_threshold example_observer = 8 / 10"
  "high_threshold example_observer = 25 / 10"
  "expectation example_observer = None"
  by (simp_all add: example_observer_def MeasureObserver_init_def RESULT_NAME_POSTFIX_def)

lemma lower_example_names:
  "lower ''out_OBSERVE_LOW_FALL_at'' = ''out_observe_low_fall_at''"
  "lower ''out_OBSERVE_LOW_RISE_at'' = ''out_observe_low_rise_at''"
  "lower ''out_OBSERVE_HIGH_FALL_at'' = ''out_observe_high_fall_at''"
  "lower ''out_OBSERVE_HIGH_RISE_at'' = ''out_observe_high_rise_at''"
  by (simp_all add: lower_def lower_char_def)

text \<open>
  C4. \<open>_observe\<close> applies its rules in a fixed order. With the four timestamps read
  from the log: a low-fall strictly later than the low-rise gives LOW with offset
  low-fall minus trigger time; otherwise a high-rise strictly later than the high-fall
  gives HIGH with offset high-rise minus trigger time; otherwise, with an
  operating-point trace, the initial value of the node below the low threshold gives
  LOW, above the high threshold HIGH, else UNCERTAIN, each with offset -1; and without
  an operating-point trace the result is UNCERTAIN.
\<close>

theorem observe_internal_priority:
  assumes "get_measurement log_reader (low_result_variable self @ ''_FALL_at'') (- 1) = Inr low_fall"
    and "get_measurement log_reader (low_result_variable self @ ''_RISE_at'') (- 1) = Inr low_rise"
    and "get_measurement log_reader (high_result_variable self @ ''_FALL_at'') (- 1) = Inr high_fall"
    and "get_measurement log_reader (high_result_variable self @ ''_RISE_at'') (- 1) = Inr high_rise"
  shows "(low_fall > low_rise \<longrightarrow>
            observe_internal self log_reader raw_op = Inr (LOW_VALUE, low_fall - TRIGGER_TIME)) \<and>
         (\<not> low_fall > low_rise \<and> high_rise > high_fall \<longrightarrow>
            observe_internal self log_reader raw_op = Inr (HIGH_VALUE, high_rise - TRIGGER_TIME)) \<and>
         (\<not> low_fall > low_rise \<and> \<not> high_rise > high_fall \<longrightarrow>
            (\<forall>op. raw_op = Some op \<longrightarrow>
               (op (''V('' @ meas_node self @ '')'') < low_threshold self \<longrightarrow>
                  observe_internal self log_reader raw_op = Inr (LOW_VALUE, - 1)) \<and>
               (\<not> op (''V('' @ meas_node self @ '')'') < low_threshold self \<and>
                op (''V('' @ meas_node self @ '')'') > high_threshold self \<longrightarrow>
                  observe_internal self log_reader raw_op = Inr (HIGH_VALUE, - 1)) \<and>
               (\<not> op (''V('' @ meas_node self @ '')'') < low_threshold self \<and>
                \<not> op (''V('' @ meas_node self @ '')'') > high_threshold self \<longrightarrow>
                  observe_internal self log_reader raw_op = Inr (UNCERTAIN_VALUE, - 1))) \<and>
            (raw_op = None \<longrightarrow>
               observe_internal self log_reader raw_op = Inr (UNCERTAIN_VALUE, - 1)))"
  using assms by (simp add: observe_internal_def Let_def)

text \<open>
  The three instances the specification lists: low-fall 5e-9 with the other three at -1
  and trigger time 10e-9 gives LOW with offset -5e-9; all four at -1 with an initial
  value (3.2 V) above the high threshold gives HIGH with offset -1; all four at -1
  without an operating-point trace gives UNCERTAIN.
\<close>

theorem observe_internal_priority_witness:
  "TRIGGER_TIME = 10 / 10 ^ 9 \<and>
   observe_internal example_observer [''out_observe_low_fall_at'' \<mapsto> [5 / 10 ^ 9]] None
     = Inr (LOW_VALUE, - 5 / 10 ^ 9) \<and>
   observe_internal example_observer Map.empty (Some (\<lambda>n. 32 / 10)) = Inr (HIGH_VALUE, - 1) \<and>
   observe_internal example_observer Map.empty None = Inr (UNCERTAIN_VALUE, - 1)"
proof -
  have a: "observe_internal example_observer [''out_observe_low_fall_at'' \<mapsto> [5 / 10 ^ 9]] None
             = Inr (LOW_VALUE, - 5 / 10 ^ 9)"
    using observe_internal_priority
      [of "[''out_observe_low_fall_at'' \<mapsto> [5 / 10 ^ 9]]" example_observer
          "5 / 10 ^ 9" "- 1" "- 1" "- 1" None]
    by (simp add: get_measurement_total example_observer_simps lower_example_names
          TRIGGER_TIME_def)
  have b: "observe_internal example_observer Map.empty (Some (\<lambda>n. 32 / 10)) = Inr (HIGH_VALUE, - 1)"
    using observe_internal_priority
      [of Map.empty example_observer "- 1" "- 1" "- 1" "- 1" "Some (\<lambda>n. 32 / 10)"]
    by (simp add: get_measurement_total example_observer_simps)
  have c: "observe_internal example_observer Map.empty None = Inr (UNCERTAIN_VALUE, - 1)"
    using observe_internal_priority
      [of Map.empty example_observer "- 1" "- 1" "- 1" "- 1" None]
    by (simp add: get_measurement_total)
  show ?thesis using a b c by (simp add: TRIGGER_TIME_def)
qed

text \<open>
  C5. \<open>observe\<close> raises \<open>ObserverExpectationUnknown\<close> as long as no expectation
  is set, which is the case for a freshly constructed observer; once
  \<open>observe_expected\<close> has stored an expectation, \<open>observe\<close> raises nothing and
  returns whether the observed classification equals the expected one, together with
  the one-element list holding the observed offset minus the expected offset.
\<close>

theorem observe_needs_expectation:
  "(expectation self = None \<longrightarrow>
      observe self log_reader raw_op = Inl ObserverExpectationUnknown) \<and>
   expectation (MeasureObserver_init netlist n lo hi) = None \<and>
   expectation (InverterObserver_init netlist n) = None \<and>
   (\<forall>expected. expectation self = Some expected \<longrightarrow>
      (\<exists>observation.
         observe_internal self log_reader raw_op = Inr observation \<and>
         observe self log_reader raw_op =
           Inr (fst observation = fst expected, [snd observation - snd expected]))) \<and>
   (\<forall>self' out. observe_expected self log0 raw_op0 = (None, self', out) \<longrightarrow>
      (\<exists>expected observation.
         observe_internal self log0 raw_op0 = Inr expected \<and>
         expectation self' = Some expected \<and>
         observe_internal self' log_reader raw_op = Inr observation \<and>
         observe self' log_reader raw_op =
           Inr (fst observation = fst expected, [snd observation - snd expected])))"
proof (intro conjI allI impI)
  assume "expectation self = None"
  then show "observe self log_reader raw_op = Inl ObserverExpectationUnknown"
    by (simp add: observe_def)
next
  show "expectation (MeasureObserver_init netlist n lo hi) = None"
    by (simp add: MeasureObserver_init_def)
next
  show "expectation (InverterObserver_init netlist n) = None"
    by (simp add: InverterObserver_init_def MeasureObserver_init_def)
next
  fix expected
  assume e: "expectation self = Some expected"
  obtain observation where o: "observe_internal self log_reader raw_op = Inr observation"
    using observe_internal_total by blast
  with e show "\<exists>observation.
         observe_internal self log_reader raw_op = Inr observation \<and>
         observe self log_reader raw_op =
           Inr (fst observation = fst expected, [snd observation - snd expected])"
    by (simp add: observe_def)
next
  fix self' out
  assume oe: "observe_expected self log0 raw_op0 = (None, self', out)"
  obtain expected where x: "observe_internal self log0 raw_op0 = Inr expected"
    using observe_internal_total by blast
  with oe have s: "self' = self\<lparr>expectation := Some expected\<rparr>"
    by (auto simp: observe_expected_def Let_def split: if_splits)
  obtain observation where o: "observe_internal self' log_reader raw_op = Inr observation"
    using observe_internal_total by blast
  with x s show "\<exists>expected observation.
         observe_internal self log0 raw_op0 = Inr expected \<and>
         expectation self' = Some expected \<and>
         observe_internal self' log_reader raw_op = Inr observation \<and>
         observe self' log_reader raw_op =
           Inr (fst observation = fst expected, [snd observation - snd expected])"
    by (simp add: observe_def)
qed

theorem observe_needs_expectation_witness:
  "observe example_observer Map.empty None = Inl ObserverExpectationUnknown \<and>
   observe (example_observer\<lparr>expectation := Some (HIGH_VALUE, 2 / 10 ^ 9)\<rparr>)
     [''out_observe_low_fall_at'' \<mapsto> [5 / 10 ^ 9]] None
     = Inr (False, [- 7 / 10 ^ 9])"
proof -
  have a: "observe example_observer Map.empty None = Inl ObserverExpectationUnknown"
    using observe_needs_expectation [of example_observer Map.empty None]
    by (simp add: example_observer_simps)
  have b: "observe_internal (example_observer\<lparr>expectation := Some (HIGH_VALUE, 2 / 10 ^ 9)\<rparr>)
             [''out_observe_low_fall_at'' \<mapsto> [5 / 10 ^ 9]] None = Inr (LOW_VALUE, - 5 / 10 ^ 9)"
    by (simp add: observe_internal_def get_measurement_total example_observer_simps
          lower_example_names TRIGGER_TIME_def)
  have c: "observe (example_observer\<lparr>expectation := Some (HIGH_VALUE, 2 / 10 ^ 9)\<rparr>)
             [''out_observe_low_fall_at'' \<mapsto> [5 / 10 ^ 9]] None = Inr (False, [- 7 / 10 ^ 9])"
    using observe_needs_expectation
      [of "example_observer\<lparr>expectation := Some (HIGH_VALUE, 2 / 10 ^ 9)\<rparr>"
          "[''out_observe_low_fall_at'' \<mapsto> [5 / 10 ^ 9]]" None] b
    by (simp add: LOW_VALUE_def HIGH_VALUE_def)
  show ?thesis using a c by simp
qed

text \<open>
  C8. Each of the four timestamps that \<open>_observe\<close> reads (low-fall, low-rise,
  high-fall, high-rise) is -1 when the log holds no value for that measurement, so that
  \<open>_observe\<close> returns a classification for every log, whatever is missing from it.
\<close>

theorem measurement_defaults_to_sentinel:
  "(\<forall>variable \<in> {low_result_variable self @ ''_FALL_at'', low_result_variable self @ ''_RISE_at'',
                  high_result_variable self @ ''_FALL_at'', high_result_variable self @ ''_RISE_at''}.
      (log_getitem log_reader (lower variable) = Inl IndexError
         \<or> log_getitem log_reader (lower variable) = Inr []
       \<longrightarrow> get_measurement log_reader variable (- 1) = Inr (- 1))) \<and>
   (\<exists>observation. observe_internal self log_reader raw_op = Inr observation)"
  using observe_internal_total [of self log_reader raw_op]
  by (auto simp: get_measurement_def)

theorem measurement_defaults_to_sentinel_witness:
  "log_getitem Map.empty (lower (low_result_variable example_observer @ ''_FALL_at'')) = Inl IndexError \<and>
   get_measurement Map.empty (low_result_variable example_observer @ ''_FALL_at'') (- 1) = Inr (- 1) \<and>
   get_measurement Map.empty (low_result_variable example_observer @ ''_RISE_at'') (- 1) = Inr (- 1) \<and>
   get_measurement Map.empty (high_result_variable example_observer @ ''_FALL_at'') (- 1) = Inr (- 1) \<and>
   get_measurement Map.empty (high_result_variable example_observer @ ''_RISE_at'') (- 1) = Inr (- 1)"
  using measurement_defaults_to_sentinel [of example_observer Map.empty None]
  by (simp add: log_getitem_def)

text \<open>
  C9. When \<open>observe_expected\<close> classifies the node as UNCERTAIN it raises nothing:
  it prints the panic line after the expectation line, and it records the UNCERTAIN
  expectation, against which every later \<open>observe\<close> compares.
\<close>

theorem uncertain_expectation_is_reported:
  assumes "observe_internal self log0 raw_op0 = Inr (UNCERTAIN_VALUE, offset)"
  shows "observe_expected self log0 raw_op0 =
           (None, self\<lparr>expectation := Some (UNCERTAIN_VALUE, offset)\<rparr>,
            [ExpectationLine (meas_node self) UNCERTAIN_VALUE offset, PanicLine (meas_node self)]) \<and>
         (\<exists>observation.
            observe_internal self log_reader raw_op = Inr observation \<and>
            observe (self\<lparr>expectation := Some (UNCERTAIN_VALUE, offset)\<rparr>) log_reader raw_op =
              Inr (fst observation = UNCERTAIN_VALUE, [snd observation - offset]))"
proof -
  obtain observation where o: "observe_internal self log_reader raw_op = Inr observation"
    using observe_internal_total by blast
  then show ?thesis
    using assms
    by (simp add: observe_expected_def observe_def observe_internal_expectation Let_def)
qed

theorem uncertain_expectation_is_reported_witness:
  "observe_internal example_observer Map.empty None = Inr (UNCERTAIN_VALUE, - 1) \<and>
   observe_expected example_observer Map.empty None =
     (None, example_observer\<lparr>expectation := Some (UNCERTAIN_VALUE, - 1)\<rparr>,
      [ExpectationLine ''out'' UNCERTAIN_VALUE (- 1), PanicLine ''out''])"
proof -
  have a: "observe_internal example_observer Map.empty None = Inr (UNCERTAIN_VALUE, - 1)"
    by (simp add: observe_internal_def get_measurement_total)
  show ?thesis
    using uncertain_expectation_is_reported [OF a, of Map.empty None] a
    by (simp add: example_observer_simps)
qed

section \<open>The store seen through one reference\<close>

lemma find_filter: "find P xs = (case filter P xs of [] \<Rightarrow> None | c # cs \<Rightarrow> Some c)"
  by (induction xs) auto

lemma filter_remove_first:
  "filter (\<lambda>c. reference c = x) (remove_first r cs) =
     (if x = r then tl (filter (\<lambda>c. reference c = x) cs) else filter (\<lambda>c. reference c = x) cs)"
  by (induction cs) auto


lemma mem_get_components: "r \<in> set (get_components ed) \<longleftrightarrow> view ed r \<noteq> []"
  by (auto simp: get_components_def view_def filter_empty_conv)

lemma get_component_view:
  "get_component ed r = (case view ed r of [] \<Rightarrow> Inl ComponentNotFound | c # cs \<Rightarrow> Inr c)"
  by (simp add: get_component_def view_def find_filter split: list.splits)

lemma view_reference: "c \<in> set (view ed r) \<Longrightarrow> reference c = r"
  by (simp add: view_def)

lemma add_component_view:
  assumes "add_component c ed = Inr ed'"
  shows "view ed (reference c) = []"
    and "view ed' x = view ed x @ (if x = reference c then [c] else [])"
    and "instructions ed' = instructions ed"
  using assms
  by (auto simp: add_component_def mem_get_components view_def split: if_splits)

lemma net_remove_component_view:
  assumes "net_remove_component r ed = Inr ed'"
  shows "view ed r \<noteq> []"
    and "view ed' x = (if x = r then tl (view ed x) else view ed x)"
    and "instructions ed' = instructions ed"
  using assms
  by (auto simp: net_remove_component_def mem_get_components view_def filter_remove_first
           split: if_splits)



subsection \<open>The methods of the handle, seen through one reference\<close>

lemma insert_component_view:
  assumes "insert_component c nl = (Inr r, nl')"
  shows "r = reference c"
    and "view (net nl) r = []"
    and "view (net nl') x = view (net nl) x @ (if x = r then [c] else [])"
    and "instructions (net nl') = instructions (net nl)"
    and "nl' = nl\<lparr>net := net nl'\<rparr>"
proof -
  obtain ed where ad: "add_component c (net nl) = Inr ed"
    using assms by (auto simp: insert_component_def split: sum.splits)
  then have r: "r = reference c" and n: "nl' = nl\<lparr>net := ed\<rparr>"
    using assms by (auto simp: insert_component_def)
  show "r = reference c" by (rule r)
  show "view (net nl) r = []" using add_component_view(1) [OF ad] r by simp
  show "view (net nl') x = view (net nl) x @ (if x = r then [c] else [])"
    using add_component_view(2) [OF ad, of x] r n by simp
  show "instructions (net nl') = instructions (net nl)"
    using add_component_view(3) [OF ad] n by simp
  show "nl' = nl\<lparr>net := net nl'\<rparr>" using n by simp
qed

lemma get_next_resistor_net:
  "get_next_resistor_descriptor_index nl = (i, nl') \<Longrightarrow> nl' = nl\<lparr>resistor_descriptor_index := i\<rparr>"
  by (auto simp: get_next_resistor_descriptor_index_def Let_def)

lemma get_next_fet_net:
  "get_next_fet_descriptor_index nl = (i, nl') \<Longrightarrow> nl' = nl\<lparr>fet_descriptor_index := i\<rparr>"
  by (auto simp: get_next_fet_descriptor_index_def Let_def)

lemma get_next_source_net:
  "get_next_source_descriptor_index nl = (i, nl') \<Longrightarrow> nl' = nl\<lparr>source_descriptor_index := i\<rparr>"
  by (auto simp: get_next_source_descriptor_index_def Let_def)

lemma insert_resistor_view:
  assumes "insert_resistor n1 n2 v nl = (Inr r, nl')"
  shows "startswith r ''R''"
    and "view (net nl) r = []"
    and "view (net nl') x =
           view (net nl) x @ (if x = r then [\<lparr>reference = r, ports = [n1, n2], cvalue = v\<rparr>] else [])"
    and "instructions (net nl') = instructions (net nl)"
    and "ground_node nl' = ground_node nl" and "supply_node nl' = supply_node nl"
    and "vdd nl' = vdd nl" and "vss nl' = vss nl"
proof -
  obtain i nl1 where g: "get_next_resistor_descriptor_index nl = (i, nl1)"
    by (cases "get_next_resistor_descriptor_index nl")
  let ?c = "\<lparr>reference = ''R'' @ str_int i, ports = [n1, n2], cvalue = v\<rparr>"
  have ic: "insert_component ?c nl1 = (Inr r, nl')"
    using assms g by (simp add: insert_resistor_def)
  have n1: "nl1 = nl\<lparr>resistor_descriptor_index := i\<rparr>"
    using g by (rule get_next_resistor_net)
  note f = insert_component_view [OF ic]
  have r: "r = ''R'' @ str_int i" using f(1) by simp
  show "startswith r ''R''" using r by (simp add: startswith_def)
  show "view (net nl) r = []" using f(2) n1 by simp
  show "view (net nl') x =
           view (net nl) x @ (if x = r then [\<lparr>reference = r, ports = [n1, n2], cvalue = v\<rparr>] else [])"
    using f(3) [of x] n1 r by simp
  show "instructions (net nl') = instructions (net nl)" using f(4) n1 by simp
  have "nl' = nl1\<lparr>net := net nl'\<rparr>" by (rule f(5))
  then have e: "nl' = nl\<lparr>resistor_descriptor_index := i, net := net nl'\<rparr>" using n1 by simp
  show "ground_node nl' = ground_node nl" by (subst e) simp
  show "supply_node nl' = supply_node nl" by (subst e) simp
  show "vdd nl' = vdd nl" by (subst e) simp
  show "vss nl' = vss nl" by (subst e) simp
qed

lemma insert_fet_view:
  assumes "insert_fet d g s m nl = (Inr r, nl')"
  shows "startswith r ''M''"
    and "view (net nl) r = []"
    and "view (net nl') x =
           view (net nl) x @ (if x = r then [\<lparr>reference = r, ports = [d, g, s, s], cvalue = m\<rparr>] else [])"
    and "instructions (net nl') = instructions (net nl)"
    and "ground_node nl' = ground_node nl" and "supply_node nl' = supply_node nl"
    and "vdd nl' = vdd nl" and "vss nl' = vss nl"
proof -
  obtain i nl1 where g: "get_next_fet_descriptor_index nl = (i, nl1)"
    by (cases "get_next_fet_descriptor_index nl")
  let ?c = "\<lparr>reference = ''M'' @ str_int i, ports = [d, g, s, s], cvalue = m\<rparr>"
  have ic: "insert_component ?c nl1 = (Inr r, nl')"
    using assms g by (simp add: insert_fet_def)
  have n1: "nl1 = nl\<lparr>fet_descriptor_index := i\<rparr>"
    using g by (rule get_next_fet_net)
  note f = insert_component_view [OF ic]
  have r: "r = ''M'' @ str_int i" using f(1) by simp
  show "startswith r ''M''" using r by (simp add: startswith_def)
  show "view (net nl) r = []" using f(2) n1 by simp
  show "view (net nl') x =
           view (net nl) x @ (if x = r then [\<lparr>reference = r, ports = [d, g, s, s], cvalue = m\<rparr>] else [])"
    using f(3) [of x] n1 r by simp
  show "instructions (net nl') = instructions (net nl)" using f(4) n1 by simp
  have "nl' = nl1\<lparr>net := net nl'\<rparr>" by (rule f(5))
  then have e: "nl' = nl\<lparr>fet_descriptor_index := i, net := net nl'\<rparr>" using n1 by simp
  show "ground_node nl' = ground_node nl" by (subst e) simp
  show "supply_node nl' = supply_node nl" by (subst e) simp
  show "vdd nl' = vdd nl" by (subst e) simp
  show "vss nl' = vss nl" by (subst e) simp
qed

lemma insert_source_view:
  assumes "insert_source n1 n2 v nl = (Inr r, nl')"
  shows "startswith r ''V''"
    and "view (net nl) r = []"
    and "view (net nl') x =
           view (net nl) x @ (if x = r then [\<lparr>reference = r, ports = [n1, n2], cvalue = v\<rparr>] else [])"
    and "instructions (net nl') = instructions (net nl)"
    and "ground_node nl' = ground_node nl" and "supply_node nl' = supply_node nl"
    and "vdd nl' = vdd nl" and "vss nl' = vss nl"
proof -
  obtain i nl1 where g: "get_next_source_descriptor_index nl = (i, nl1)"
    by (cases "get_next_source_descriptor_index nl")
  let ?c = "\<lparr>reference = ''V'' @ str_int i, ports = [n1, n2], cvalue = v\<rparr>"
  have ic: "insert_component ?c nl1 = (Inr r, nl')"
    using assms g by (simp add: insert_source_def)
  have n1: "nl1 = nl\<lparr>source_descriptor_index := i\<rparr>"
    using g by (rule get_next_source_net)
  note f = insert_component_view [OF ic]
  have r: "r = ''V'' @ str_int i" using f(1) by simp
  show "startswith r ''V''" using r by (simp add: startswith_def)
  show "view (net nl) r = []" using f(2) n1 by simp
  show "view (net nl') x =
           view (net nl) x @ (if x = r then [\<lparr>reference = r, ports = [n1, n2], cvalue = v\<rparr>] else [])"
    using f(3) [of x] n1 r by simp
  show "instructions (net nl') = instructions (net nl)" using f(4) n1 by simp
  have "nl' = nl1\<lparr>net := net nl'\<rparr>" by (rule f(5))
  then have e: "nl' = nl\<lparr>source_descriptor_index := i, net := net nl'\<rparr>" using n1 by simp
  show "ground_node nl' = ground_node nl" by (subst e) simp
  show "supply_node nl' = supply_node nl" by (subst e) simp
  show "vdd nl' = vdd nl" by (subst e) simp
  show "vss nl' = vss nl" by (subst e) simp
qed

lemma remove_component_view:
  assumes "remove_component ref nl = (None, nl')"
  shows "\<exists>r. ref = Some r \<and> view (net nl) r \<noteq> []"
    and "view (net nl') x = (if Some x = ref then tl (view (net nl) x) else view (net nl) x)"
    and "instructions (net nl') = instructions (net nl)"
    and "ground_node nl' = ground_node nl" and "supply_node nl' = supply_node nl"
    and "vdd nl' = vdd nl" and "vss nl' = vss nl"
proof -
  obtain r where ref: "ref = Some r"
    using assms by (cases ref) (auto simp: remove_component_def)
  obtain ed where rm: "net_remove_component r (net nl) = Inr ed" and n: "nl' = nl\<lparr>net := ed\<rparr>"
    using assms ref by (auto simp: remove_component_def split: sum.splits)
  show "\<exists>r. ref = Some r \<and> view (net nl) r \<noteq> []"
    using net_remove_component_view(1) [OF rm] ref by simp
  show "view (net nl') x = (if Some x = ref then tl (view (net nl) x) else view (net nl) x)"
    using net_remove_component_view(2) [OF rm, of x] ref n by auto
  show "instructions (net nl') = instructions (net nl)"
    using net_remove_component_view(3) [OF rm] n by simp
  show "ground_node nl' = ground_node nl" "supply_node nl' = supply_node nl"
    "vdd nl' = vdd nl" "vss nl' = vss nl"
    using n by simp_all
qed


lemma update_fet_ports_view:
  assumes "update_fet_ports ref d g s b nl = (None, nl')"
  shows "startswith ref ''M''"
    and "\<exists>c. view (net nl) ref = [c]"
    and "view (net nl') x =
           (if x = ref
            then [\<lparr>reference = ref, ports = [d, g, s, b], cvalue = cvalue (hd (view (net nl) ref))\<rparr>]
            else view (net nl) x)"
    and "instructions (net nl') = instructions (net nl)"
    and "ground_node nl' = ground_node nl" and "supply_node nl' = supply_node nl"
    and "vdd nl' = vdd nl" and "vss nl' = vss nl"
proof -
  have sw: "startswith ref ''M''"
    using assms by (auto simp: update_fet_ports_def split: if_splits)
  obtain old_fet where gc: "get_component (net nl) ref = Inr old_fet"
    using assms sw by (auto simp: update_fet_ports_def split: sum.splits)
  obtain ed1 where rm: "net_remove_component ref (net nl) = Inr ed1"
    using assms sw gc by (auto simp: update_fet_ports_def Let_def split: sum.splits)
  let ?new = "\<lparr>reference = reference old_fet, ports = [d, g, s, b], cvalue = cvalue old_fet\<rparr>"
  obtain ed2 where ad: "add_component ?new ed1 = Inr ed2" and nl': "nl' = nl\<lparr>net := ed2\<rparr>"
    using assms sw gc rm by (auto simp: update_fet_ports_def Let_def split: sum.splits)
  obtain cs where v: "view (net nl) ref = old_fet # cs"
    using gc by (auto simp: get_component_view split: list.splits)
  have ro: "reference old_fet = ref"
    using v view_reference [of old_fet "net nl" ref] by simp
  have v1: "view ed1 x = (if x = ref then cs else view (net nl) x)" for x
    using net_remove_component_view(2) [OF rm, of x] v by simp
  have "view ed1 ref = []"
    using add_component_view(1) [OF ad] ro by simp
  then have cs: "cs = []" using v1 [of ref] by simp
  show "startswith ref ''M''" by (rule sw)
  show "\<exists>c. view (net nl) ref = [c]" using v cs by simp
  show "view (net nl') x =
           (if x = ref
            then [\<lparr>reference = ref, ports = [d, g, s, b], cvalue = cvalue (hd (view (net nl) ref))\<rparr>]
            else view (net nl) x)"
    using add_component_view(2) [OF ad, of x] v1 [of x] v cs ro nl' by simp
  show "instructions (net nl') = instructions (net nl)"
    using add_component_view(3) [OF ad] net_remove_component_view(3) [OF rm] nl' by simp
  show "ground_node nl' = ground_node nl" "supply_node nl' = supply_node nl"
    "vdd nl' = vdd nl" "vss nl' = vss nl"
    using nl' by simp_all
qed

lemma update_fet_ports_args_view:
  assumes "update_fet_ports_args ref ps nl = (None, nl')"
  shows "length ps = 4"
    and "startswith ref ''M''"
    and "\<exists>c. view (net nl) ref = [c]"
    and "view (net nl') x =
           (if x = ref
            then [\<lparr>reference = ref, ports = ps, cvalue = cvalue (hd (view (net nl) ref))\<rparr>]
            else view (net nl) x)"
    and "instructions (net nl') = instructions (net nl)"
    and "ground_node nl' = ground_node nl" and "supply_node nl' = supply_node nl"
    and "vdd nl' = vdd nl" and "vss nl' = vss nl"
proof -
  obtain d g s b where ps: "ps = [d, g, s, b]"
    using assms by (auto simp: update_fet_ports_args_def split: list.splits)
  then have u: "update_fet_ports ref d g s b nl = (None, nl')"
    using assms by (simp add: update_fet_ports_args_def)
  note f = update_fet_ports_view [OF u]
  show "length ps = 4" using ps by simp
  show "startswith ref ''M''" by (rule f(1))
  show "\<exists>c. view (net nl) ref = [c]" by (rule f(2))
  show "view (net nl') x =
           (if x = ref
            then [\<lparr>reference = ref, ports = ps, cvalue = cvalue (hd (view (net nl) ref))\<rparr>]
            else view (net nl) x)"
    using f(3) [of x] ps by simp
  show "instructions (net nl') = instructions (net nl)" by (rule f(4))
  show "ground_node nl' = ground_node nl" "supply_node nl' = supply_node nl"
    "vdd nl' = vdd nl" "vss nl' = vss nl"
    by (rule f(5) f(6) f(7) f(8))+
qed

lemma get_component_nodes_view:
  "view ed r = c # cs \<Longrightarrow> get_component_nodes ed r = Inr (ports c)"
  by (simp add: get_component_nodes_def get_component_view)

lemma get_component_value_view:
  "view ed r = c # cs \<Longrightarrow> get_component_value ed r = Inr (cvalue c)"
  by (simp add: get_component_value_def get_component_view)

lemma get_component_view_Cons:
  "view ed r = c # cs \<Longrightarrow> get_component ed r = Inr c"
  by (simp add: get_component_view)

subsection \<open>When the methods of the handle succeed\<close>

lemma remove_component_ok:
  assumes "view (net nl) r \<noteq> []"
  shows "\<exists>nl'. remove_component (Some r) nl = (None, nl')"
  using assms by (simp add: remove_component_def net_remove_component_def mem_get_components)


lemma update_fet_ports_args_ok:
  assumes "startswith ref ''M''" and "view (net nl) ref = [c]" and "length ps = 4"
  shows "\<exists>nl'. update_fet_ports_args ref ps nl = (None, nl')"
proof -
  obtain d g s b where ps: "ps = [d, g, s, b]"
    using assms(3) by (auto simp: length_Suc_conv numeral_eq_Suc)
  have gc: "get_component (net nl) ref = Inr c"
    using assms(2) by (simp add: get_component_view)
  have rc: "reference c = ref"
    using view_reference [of c "net nl" ref] assms(2) by simp
  obtain ed1 where rm: "net_remove_component ref (net nl) = Inr ed1"
    using assms(2) by (simp add: net_remove_component_def mem_get_components)
  have "view ed1 ref = []"
    using net_remove_component_view(2) [OF rm, of ref] assms(2) by simp
  then have "ref \<notin> set (get_components ed1)"
    by (simp add: mem_get_components)
  then have "\<exists>ed2. add_component \<lparr>reference = reference c, ports = [d, g, s, b], cvalue = cvalue c\<rparr> ed1 = Inr ed2"
    using rc by (simp add: add_component_def)
  then show ?thesis
    using assms(1) gc rm ps
    by (auto simp: update_fet_ports_args_def update_fet_ports_def Let_def)
qed

section \<open>Properties of the topology transforms\<close>

text \<open>
  C10. \<open>insert_fet\<close> stores the transistor with the port list
  [drain, gate, source, source]: the bulk terminal is the source terminal. Hence the
  pull transistor of an \<open>InjectionPoint\<close> and both transistors of an
  \<open>InverterObserver\<close> have their bulk on their source node (supply or ground).
\<close>

theorem insert_fet_bulk_is_source:
  "(insert_fet drain_node gate_node source_node model nl = (Inr r, nl') \<longrightarrow>
      get_component (net nl') r =
        Inr \<lparr>reference = r, ports = [drain_node, gate_node, source_node, source_node],
             cvalue = model\<rparr>) \<and>
   (InjectionPoint_inject ip nl = (None, ip', nl') \<longrightarrow>
      (\<exists>m gate_node rail.
         fet ip' = Some m \<and> rail = (if pull_up ip then supply_node nl else ground_node nl) \<and>
         get_component_nodes (net nl') m = Inr [node ip, gate_node, rail, rail])) \<and>
   (InverterObserver_inject ob nl = (None, ob', nl') \<longrightarrow>
      (\<exists>p n.
         pmos ob' = Some p \<and> nmos ob' = Some n \<and>
         get_component_nodes (net nl') p =
           Inr [observer_node ob @ NODE_POSTFIX, observer_node ob, supply_node nl, supply_node nl] \<and>
         get_component_nodes (net nl') n =
           Inr [observer_node ob @ NODE_POSTFIX, observer_node ob, ground_node nl, ground_node nl]))"
proof (intro conjI impI)
  assume a: "insert_fet drain_node gate_node source_node model nl = (Inr r, nl')"
  show "get_component (net nl') r =
        Inr \<lparr>reference = r, ports = [drain_node, gate_node, source_node, source_node],
             cvalue = model\<rparr>"
    using insert_fet_view(2) [OF a] insert_fet_view(3) [OF a, of r]
    by (simp add: get_component_view)
next
  assume a: "InjectionPoint_inject ip nl = (None, ip', nl')"
  obtain ip1 where b: "TestUtility_inject ip = (None, ip1)"
    using a by (auto simp: InjectionPoint_inject_def split: prod.splits option.splits)
  then have ip1: "ip1 = ip\<lparr>utility_state := STATE_INJECTED\<rparr>"
    by (auto simp: TestUtility_inject_def split: if_splits)
  show "\<exists>m gate_node rail.
         fet ip' = Some m \<and> rail = (if pull_up ip then supply_node nl else ground_node nl) \<and>
         get_component_nodes (net nl') m = Inr [node ip, gate_node, rail, rail]"
  proof (cases "pull_up ip")
    case True
    obtain v nl1 where s: "insert_source (node ip @ PMOS_GATE_NODE_POSTFIX) (ground_node nl)
                             (Num (vdd nl)) nl = (Inr v, nl1)"
      using a b ip1 True
      by (auto simp: InjectionPoint_inject_def Let_def split: prod.splits sum.splits)
    obtain m where f: "insert_fet (node ip) (node ip @ PMOS_GATE_NODE_POSTFIX)
                             (supply_node nl1) PMOS_MODEL nl1 = (Inr m, nl')"
      and ip': "fet ip' = Some m"
      using a b ip1 True s
      by (auto simp: InjectionPoint_inject_def Let_def split: prod.splits sum.splits)
    have "view (net nl') m = [\<lparr>reference = m, ports = [node ip, node ip @ PMOS_GATE_NODE_POSTFIX,
             supply_node nl1, supply_node nl1], cvalue = PMOS_MODEL\<rparr>]"
      using insert_fet_view(2) [OF f] insert_fet_view(3) [OF f, of m] by simp
    then have "get_component_nodes (net nl') m =
        Inr [node ip, node ip @ PMOS_GATE_NODE_POSTFIX, supply_node nl, supply_node nl]"
      using insert_source_view(6) [OF s] by (simp add: get_component_nodes_view)
    with ip' True show ?thesis by auto
  next
    case False
    obtain v nl1 where s: "insert_source (node ip @ NMOS_GATE_NODE_POSTFIX) (ground_node nl)
                             (Num (vss nl)) nl = (Inr v, nl1)"
      using a b ip1 False
      by (auto simp: InjectionPoint_inject_def Let_def split: prod.splits sum.splits)
    obtain m where f: "insert_fet (node ip) (node ip @ NMOS_GATE_NODE_POSTFIX)
                             (ground_node nl1) NMOS_MODEL nl1 = (Inr m, nl')"
      and ip': "fet ip' = Some m"
      using a b ip1 False s
      by (auto simp: InjectionPoint_inject_def Let_def split: prod.splits sum.splits)
    have "view (net nl') m = [\<lparr>reference = m, ports = [node ip, node ip @ NMOS_GATE_NODE_POSTFIX,
             ground_node nl1, ground_node nl1], cvalue = NMOS_MODEL\<rparr>]"
      using insert_fet_view(2) [OF f] insert_fet_view(3) [OF f, of m] by simp
    then have "get_component_nodes (net nl') m =
        Inr [node ip, node ip @ NMOS_GATE_NODE_POSTFIX, ground_node nl, ground_node nl]"
      using insert_source_view(5) [OF s] by (simp add: get_component_nodes_view)
    with ip' False show ?thesis by auto
  qed
next
  assume a: "InverterObserver_inject ob nl = (None, ob', nl')"
  obtain ob1 where b: "TestUtility_inject ob = (None, ob1)"
    using a by (auto simp: InverterObserver_inject_def split: prod.splits option.splits)
  then have ob1: "ob1 = ob\<lparr>utility_state := STATE_INJECTED\<rparr>"
    by (auto simp: TestUtility_inject_def split: if_splits)
  obtain p nl1 where fp: "insert_fet (observer_node ob @ NODE_POSTFIX) (observer_node ob)
                            (supply_node nl) PMOS_MODEL nl = (Inr p, nl1)"
    using a b ob1
    by (auto simp: InverterObserver_inject_def Let_def split: prod.splits sum.splits)
  obtain n where fn: "insert_fet (observer_node ob @ NODE_POSTFIX) (observer_node ob)
                            (ground_node nl1) NMOS_MODEL nl1 = (Inr n, nl')"
    and ob': "pmos ob' = Some p" "nmos ob' = Some n"
    using a b ob1 fp
    by (auto simp: InverterObserver_inject_def Let_def split: prod.splits sum.splits)
  have vp1: "view (net nl1) p = [\<lparr>reference = p, ports = [observer_node ob @ NODE_POSTFIX,
               observer_node ob, supply_node nl, supply_node nl], cvalue = PMOS_MODEL\<rparr>]"
    using insert_fet_view(2) [OF fp] insert_fet_view(3) [OF fp, of p] by simp
  have "view (net nl1) n = []" by (rule insert_fet_view(2) [OF fn])
  with vp1 have pn: "p \<noteq> n" by auto
  have vp: "view (net nl') p = view (net nl1) p"
    using insert_fet_view(3) [OF fn, of p] pn by simp
  have vn: "view (net nl') n = [\<lparr>reference = n, ports = [observer_node ob @ NODE_POSTFIX,
               observer_node ob, ground_node nl1, ground_node nl1], cvalue = NMOS_MODEL\<rparr>]"
    using insert_fet_view(2) [OF fn] insert_fet_view(3) [OF fn, of n] by simp
  have "get_component_nodes (net nl') p =
           Inr [observer_node ob @ NODE_POSTFIX, observer_node ob, supply_node nl, supply_node nl]"
    using vp vp1 by (simp add: get_component_nodes_view)
  moreover have "get_component_nodes (net nl') n =
           Inr [observer_node ob @ NODE_POSTFIX, observer_node ob, ground_node nl, ground_node nl]"
    using vn insert_fet_view(5) [OF fp] by (simp add: get_component_nodes_view)
  ultimately show "\<exists>p n.
         pmos ob' = Some p \<and> nmos ob' = Some n \<and>
         get_component_nodes (net nl') p =
           Inr [observer_node ob @ NODE_POSTFIX, observer_node ob, supply_node nl, supply_node nl] \<and>
         get_component_nodes (net nl') n =
           Inr [observer_node ob @ NODE_POSTFIX, observer_node ob, ground_node nl, ground_node nl]"
    using ob' by simp
qed

subsection \<open>Evaluating the allocator on concrete stores\<close>

lemma scan_free_hit: "p @ str_int i \<in> set refs \<Longrightarrow> scan_free refs p i = scan_free refs p (i + 1)"
  by (subst scan_free.simps) simp

lemma scan_free_miss: "p @ str_int i \<notin> set refs \<Longrightarrow> scan_free refs p i = i"
  by (subst scan_free.simps) simp

lemma str_int_small:
  "str_int 1 = ''1''" "str_int 2 = ''2''" "str_int 3 = ''3''" "str_int 4 = ''4''" "str_int 5 = ''5''"
  by code_simp+

subsection \<open>The effect of the open faults\<close>

lemma Fault_inject_None:
  "Fault_inject f = (None, f') \<longleftrightarrow>
     fault_state f = STATE_NOT_INJECTED \<and> f' = f\<lparr>fault_state := STATE_INJECTED\<rparr>"
  by (auto simp: Fault_inject_def)

lemma Fault_eject_None:
  "Fault_eject f = (None, f') \<longleftrightarrow>
     fault_state f \<noteq> STATE_NOT_INJECTED \<and> f' = f\<lparr>fault_state := STATE_NOT_INJECTED\<rparr>"
  by (auto simp: Fault_eject_def)

lemma DrainOpenFault_inject_effect:
  assumes "DrainOpenFault_inject f nl = (None, f1, nl1)"
  shows "\<exists>d g s b c r.
           fault_free_ports f = [d, g, s, b] \<and> fault_state f = STATE_NOT_INJECTED \<and>
           startswith (component f) ''M'' \<and> view (net nl) (component f) = [c] \<and>
           f1 = f\<lparr>fault_state := STATE_INJECTED, open_resistor := Some r\<rparr> \<and>
           r \<noteq> component f \<and> view (net nl) r = [] \<and>
           (\<forall>x. view (net nl1) x =
              (if x = r
               then [\<lparr>reference = r, ports = [open_node d (component f), d],
                      cvalue = OPEN_RESISTANCE\<rparr>]
               else if x = component f
               then [\<lparr>reference = component f, ports = [open_node d (component f), g, s, b],
                      cvalue = cvalue c\<rparr>]
               else view (net nl) x))"
proof -
  obtain f' where fi: "Fault_inject f = (None, f')"
    using assms by (auto simp: DrainOpenFault_inject_def split: prod.splits option.splits)
  then have st: "fault_state f = STATE_NOT_INJECTED"
    and f': "f' = f\<lparr>fault_state := STATE_INJECTED\<rparr>"
    by (simp_all add: Fault_inject_None)
  obtain p0 rest where ffp: "fault_free_ports f = p0 # rest"
    using assms fi f'
    by (cases "fault_free_ports f") (auto simp: DrainOpenFault_inject_def Let_def)
  let ?n0 = "open_node p0 (component f)"
  obtain nla where u: "update_fet_ports_args (component f) (?n0 # rest) nl = (None, nla)"
    using assms fi f' ffp
    by (auto simp: DrainOpenFault_inject_def Let_def split: prod.splits option.splits)
  obtain r where ir: "insert_resistor ?n0 p0 OPEN_RESISTANCE nla = (Inr r, nl1)"
    and f1: "f1 = f'\<lparr>open_resistor := Some r\<rparr>"
    using assms fi f' ffp u
    by (auto simp: DrainOpenFault_inject_def Let_def split: prod.splits option.splits sum.splits)
  note uv = update_fet_ports_args_view [OF u]
  note rv = insert_resistor_view [OF ir]
  obtain g s b where rest: "rest = [g, s, b]"
    using uv(1) by (auto simp: length_Suc_conv numeral_eq_Suc)
  obtain c where c: "view (net nl) (component f) = [c]"
    using uv(3) by blast
  have rc: "r \<noteq> component f"
    using rv(2) uv(4) [of r] by auto
  have r0: "view (net nl) r = []"
    using rv(2) uv(4) [of r] rc by simp
  have "view (net nl1) x =
              (if x = r
               then [\<lparr>reference = r, ports = [open_node p0 (component f), p0],
                      cvalue = OPEN_RESISTANCE\<rparr>]
               else if x = component f
               then [\<lparr>reference = component f, ports = [open_node p0 (component f), g, s, b],
                      cvalue = cvalue c\<rparr>]
               else view (net nl) x)" for x
    using rv(3) [of x] uv(4) [of x] rc r0 c rest by auto
  then show ?thesis
    using ffp rest st uv(2) c f1 f' rc r0 by auto
qed

lemma OpenFault_eject_effect:
  assumes "startswith (component f1) ''M''"
    and "length (fault_free_ports f1) = 4"
    and "fault_state f1 = STATE_INJECTED"
    and "open_resistor f1 = Some r"
    and "r \<noteq> component f1"
    and "view (net nl1) (component f1) = [c1]"
    and "view (net nl1) r = [res]"
  shows "\<exists>nl2. OpenFault_eject f1 nl1 = (None, f1\<lparr>fault_state := STATE_NOT_INJECTED\<rparr>, nl2) \<and>
           (\<forall>x. view (net nl2) x =
              (if x = r then []
               else if x = component f1
               then [\<lparr>reference = component f1, ports = fault_free_ports f1, cvalue = cvalue c1\<rparr>]
               else view (net nl1) x))"
proof -
  obtain nla where u: "update_fet_ports_args (component f1) (fault_free_ports f1) nl1 = (None, nla)"
    using update_fet_ports_args_ok [OF assms(1) assms(6) assms(2)] by blast
  note uv = update_fet_ports_args_view [OF u]
  have "view (net nla) r = [res]"
    using uv(4) [of r] assms(5) assms(7) by simp
  then obtain nl2 where rm: "remove_component (Some r) nla = (None, nl2)"
    using remove_component_ok [of nla r] by auto
  note rv = remove_component_view [OF rm]
  have e: "OpenFault_eject f1 nl1 = (None, f1\<lparr>fault_state := STATE_NOT_INJECTED\<rparr>, nl2)"
    using u rm assms(3) assms(4) by (simp add: OpenFault_eject_def Fault_eject_def)
  have "view (net nl2) x =
              (if x = r then []
               else if x = component f1
               then [\<lparr>reference = component f1, ports = fault_free_ports f1, cvalue = cvalue c1\<rparr>]
               else view (net nl1) x)" for x
    using rv(2) [of x] uv(4) [of x] assms(5) assms(6) assms(7) by auto
  with e show ?thesis by blast
qed

lemma Fault_init_effect:
  assumes "Fault_init k nl0 ref = Inr f"
  shows "kind f = k" and "component f = ref" and "fault_state f = STATE_NOT_INJECTED"
    and "startswith ref (required_prefix k)"
    and "k = ResistorOpen \<or> k = ResistorShort \<Longrightarrow>
           \<exists>v. get_component_value (net nl0) ref = Inr v \<and> fault_free_value f = Some v"
    and "k \<noteq> ResistorOpen \<Longrightarrow> k \<noteq> ResistorShort \<Longrightarrow>
           get_component_nodes (net nl0) ref = Inr (fault_free_ports f)"
  using assms
  by (auto simp: Fault_init_def Let_def split: if_splits sum.splits)

lemma nodes_view:
  "get_component_nodes ed r = Inr ps \<Longrightarrow> \<exists>c cs. view ed r = c # cs \<and> ports c = ps"
  by (auto simp: get_component_nodes_def get_component_view split: list.splits)


lemmas eval_netlist =
  example_netlist_def NetList_init_def insert_fet_def insert_source_def insert_resistor_def
  insert_component_def add_component_def get_components_def get_component_def
  get_component_nodes_def get_component_value_def
  net_remove_component_def net_set_component_value_def remove_component_def
  set_component_value_def update_fet_ports_def update_fet_ports_args_def
  get_next_fet_descriptor_index_def get_next_source_descriptor_index_def
  get_next_resistor_descriptor_index_def scan_free_hit scan_free_miss str_int_small
  startswith_def Let_def

lemmas eval_fault =
  Fault_init_def Fault_inject_def Fault_eject_def DrainOpenFault_inject_def
  DrainOpenFault_eject_def OpenFault_eject_def SourceOpenFault_inject_def
  SourceOpenFault_eject_def GateOpenFault_inject_def GateOpenFault_eject_def
  Short_inject_def Short_eject_def GateDrainShort_inject_def GateSourceShort_inject_def
  DrainSourceShort_inject_def CapacitorShort_inject_def Resistor_inject_def Resistor_eject_def
  fault_inject.simps fault_eject.simps open_node_def
  OPEN_RESISTANCE_def SHORT_RESISTANCE_def COUPLING_RESISTANCE_def GATE_RESISTANCE_def

text \<open>
  C7. A drain-open fault built on transistor \<open>ref\<close> with ports (d, g, s, b): a
  successful \<open>inject\<close> leaves the transistor with the drain port
  \<open>d_ref_open\<close> (the other three ports unchanged) and a resistor of 1e11 ohms with
  the terminals (\<open>d_ref_open\<close>, d); the \<open>eject\<close> that follows succeeds, removes
  that resistor and gives the transistor the four ports captured at construction.
\<close>

theorem drain_open_inject_eject:
  assumes "Fault_init DrainOpenFault nl0 ref = Inr f"
    and "DrainOpenFault_inject f nl = (None, f1, nl1)"
  shows "\<exists>d g s b r nl2.
           get_component_nodes (net nl0) ref = Inr [d, g, s, b] \<and>
           fault_free_ports f = [d, g, s, b] \<and>
           get_component_nodes (net nl1) ref = Inr [d @ ''_'' @ ref @ ''_open'', g, s, b] \<and>
           open_resistor f1 = Some r \<and>
           get_component (net nl1) r =
             Inr \<lparr>reference = r, ports = [d @ ''_'' @ ref @ ''_open'', d],
                  cvalue = Num (10 ^ 11)\<rparr> \<and>
           DrainOpenFault_eject f1 nl1 = (None, f1\<lparr>fault_state := STATE_NOT_INJECTED\<rparr>, nl2) \<and>
           r \<notin> set (get_components (net nl2)) \<and>
           get_component_nodes (net nl2) ref = Inr [d, g, s, b]"
proof -
  note i = Fault_init_effect [OF assms(1)]
  obtain d g s b c r where h:
    "fault_free_ports f = [d, g, s, b] \<and> fault_state f = STATE_NOT_INJECTED \<and>
     startswith (component f) ''M'' \<and> view (net nl) (component f) = [c] \<and>
     f1 = f\<lparr>fault_state := STATE_INJECTED, open_resistor := Some r\<rparr> \<and>
     r \<noteq> component f \<and> view (net nl) r = [] \<and>
     (\<forall>x. view (net nl1) x =
        (if x = r
         then [\<lparr>reference = r, ports = [open_node d (component f), d],
                cvalue = OPEN_RESISTANCE\<rparr>]
         else if x = component f
         then [\<lparr>reference = component f, ports = [open_node d (component f), g, s, b],
                cvalue = cvalue c\<rparr>]
         else view (net nl) x))"
    using DrainOpenFault_inject_effect [OF assms(2)] by blast
  have ffp: "fault_free_ports f = [d, g, s, b]"
    and f1: "f1 = f\<lparr>fault_state := STATE_INJECTED, open_resistor := Some r\<rparr>"
    and rc: "r \<noteq> component f"
    using h by simp_all
  have v1: "view (net nl1) x =
        (if x = r
         then [\<lparr>reference = r, ports = [open_node d (component f), d],
                cvalue = OPEN_RESISTANCE\<rparr>]
         else if x = component f
         then [\<lparr>reference = component f, ports = [open_node d (component f), g, s, b],
                cvalue = cvalue c\<rparr>]
         else view (net nl) x)" for x
    using h by simp
  have sw: "startswith ref ''M''" using i(4) by simp
  have a: "get_component_nodes (net nl0) ref = Inr [d, g, s, b]"
    using i(6) ffp by simp
  have b: "get_component_nodes (net nl1) ref = Inr [d @ ''_'' @ ref @ ''_open'', g, s, b]"
    using v1 [of ref] rc i(2) by (simp add: get_component_nodes_view open_node_def)
  have c: "get_component (net nl1) r =
             Inr \<lparr>reference = r, ports = [d @ ''_'' @ ref @ ''_open'', d], cvalue = Num (10 ^ 11)\<rparr>"
    using v1 [of r] i(2) by (simp add: get_component_view open_node_def OPEN_RESISTANCE_def)
  obtain nl2 where e: "OpenFault_eject f1 nl1 = (None, f1\<lparr>fault_state := STATE_NOT_INJECTED\<rparr>, nl2)"
    and v2: "\<And>x. view (net nl2) x =
              (if x = r then []
               else if x = component f1
               then [\<lparr>reference = component f1, ports = fault_free_ports f1,
                      cvalue = cvalue c\<rparr>]
               else view (net nl1) x)"
    using OpenFault_eject_effect [of f1 r nl1
        "\<lparr>reference = component f, ports = [open_node d (component f), g, s, b], cvalue = cvalue c\<rparr>"
        "\<lparr>reference = r, ports = [open_node d (component f), d], cvalue = OPEN_RESISTANCE\<rparr>"]
      f1 ffp rc sw i(2) v1 [of r] v1 [of "component f"]
    by auto
  have d: "r \<notin> set (get_components (net nl2))"
    using v2 [of r] by (simp add: mem_get_components)
  have "view (net nl2) ref = [\<lparr>reference = ref, ports = [d, g, s, b], cvalue = cvalue c\<rparr>]"
    using v2 [of ref] f1 ffp rc i(2) by auto
  then have g: "get_component_nodes (net nl2) ref = Inr [d, g, s, b]"
    by (simp add: get_component_nodes_view)
  show ?thesis
    using a ffp b c e d g f1 by (auto simp: DrainOpenFault_eject_def)
qed

theorem drain_open_inject_eject_witness:
  "\<exists>f f1 nl1 nl2.
     Fault_init DrainOpenFault example_netlist ''M1'' = Inr f \<and>
     DrainOpenFault_inject f example_netlist = (None, f1, nl1) \<and>
     get_component_nodes (net nl1) ''M1'' = Inr [''out_M1_open'', ''in'', ''0'', ''0''] \<and>
     open_resistor f1 = Some ''R2'' \<and>
     get_component (net nl1) ''R2'' =
       Inr \<lparr>reference = ''R2'', ports = [''out_M1_open'', ''out''], cvalue = Num (10 ^ 11)\<rparr> \<and>
     DrainOpenFault_eject f1 nl1 = (None, f1\<lparr>fault_state := STATE_NOT_INJECTED\<rparr>, nl2) \<and>
     ''R2'' \<notin> set (get_components (net nl2)) \<and>
     get_component_nodes (net nl2) ''M1'' = Inr [''out'', ''in'', ''0'', ''0'']"
proof -
  obtain f where f: "Fault_init DrainOpenFault example_netlist ''M1'' = Inr f"
    by (simp add: eval_fault eval_netlist)
  obtain r f1 nl1 where inj: "DrainOpenFault_inject f example_netlist = (r, f1, nl1)"
    by (cases "DrainOpenFault_inject f example_netlist")
  have ffp: "fault_free_ports f = [''out'', ''in'', ''0'', ''0'']" and st: "fault_state f = STATE_NOT_INJECTED"
    and cf: "component f = ''M1''"
    using f by (auto simp: eval_fault eval_netlist)
  have "fst (DrainOpenFault_inject f example_netlist) = None"
    and "open_resistor (fst (snd (DrainOpenFault_inject f example_netlist))) = Some ''R2''"
    using ffp st cf by (simp_all add: eval_fault eval_netlist)
  then have r: "r = None" and o: "open_resistor f1 = Some ''R2''" using inj by simp_all
  show ?thesis
    using drain_open_inject_eject [OF f inj [unfolded r]] f inj r o ffp by auto
qed

lemmas eval_utility =
  MeasureObserver_init_def InverterObserver_init_def InjectionPoint_init_def
  TestUtility_inject_def TestUtility_activate_def TestUtility_deactivate_def TestUtility_eject_def
  MeasureObserver_activate_def MeasureObserver_deactivate_def InjectionPoint_activate_def
  InjectionPoint_deactivate_def activate_def deactivate_def inject_def eject_def
  InverterObserver_inject_def InverterObserver_eject_def InjectionPoint_inject_def
  InjectionPoint_eject_def NODE_POSTFIX_def RESULT_NAME_POSTFIX_def LOGIC_MARGIN_def
  NMOS_GATE_NODE_POSTFIX_def PMOS_GATE_NODE_POSTFIX_def

theorem insert_fet_bulk_is_source_witness:
  "(\<exists>nl'. insert_fet ''a'' ''b'' ''c'' NMOS_MODEL example_netlist = (Inr ''M3'', nl') \<and>
      get_component (net nl') ''M3'' =
        Inr \<lparr>reference = ''M3'', ports = [''a'', ''b'', ''c'', ''c''], cvalue = NMOS_MODEL\<rparr>) \<and>
   (\<exists>ip' nl' g.
      InjectionPoint_inject (InjectionPoint_init example_netlist ''out'' True) example_netlist
        = (None, ip', nl') \<and>
      fet ip' = Some ''M3'' \<and>
      get_component_nodes (net nl') ''M3'' = Inr [''out'', g, ''VDD'', ''VDD'']) \<and>
   (\<exists>ob' nl'.
      InverterObserver_inject (InverterObserver_init example_netlist ''out'') example_netlist
        = (None, ob', nl') \<and>
      pmos ob' = Some ''M3'' \<and> nmos ob' = Some ''M4'' \<and>
      get_component_nodes (net nl') ''M3'' = Inr [''out_INVERTER'', ''out'', ''VDD'', ''VDD''] \<and>
      get_component_nodes (net nl') ''M4'' = Inr [''out_INVERTER'', ''out'', ''0'', ''0''])"
proof (intro conjI)
  obtain r nl' where e: "insert_fet ''a'' ''b'' ''c'' NMOS_MODEL example_netlist = (r, nl')"
    by (cases "insert_fet ''a'' ''b'' ''c'' NMOS_MODEL example_netlist")
  have "fst (insert_fet ''a'' ''b'' ''c'' NMOS_MODEL example_netlist) = Inr ''M3''"
    by (simp add: eval_netlist)
  then have r: "r = Inr ''M3''" using e by simp
  show "\<exists>nl'. insert_fet ''a'' ''b'' ''c'' NMOS_MODEL example_netlist = (Inr ''M3'', nl') \<and>
      get_component (net nl') ''M3'' =
        Inr \<lparr>reference = ''M3'', ports = [''a'', ''b'', ''c'', ''c''], cvalue = NMOS_MODEL\<rparr>"
    using insert_fet_bulk_is_source [of "''a''" "''b''" "''c''" NMOS_MODEL example_netlist "''M3''" nl']
      e r by auto
next
  let ?ip = "InjectionPoint_init example_netlist ''out'' True"
  obtain r ip' nl' where e: "InjectionPoint_inject ?ip example_netlist = (r, ip', nl')"
    by (cases "InjectionPoint_inject ?ip example_netlist")
  have "fst (InjectionPoint_inject ?ip example_netlist) = None"
    and "fet (fst (snd (InjectionPoint_inject ?ip example_netlist))) = Some ''M3''"
    by (simp_all add: eval_utility eval_netlist)
  then have r: "r = None" and f: "fet ip' = Some ''M3''" using e by simp_all
  have p: "pull_up ?ip" "node ?ip = ''out''" "supply_node example_netlist = ''VDD''"
    by (simp_all add: eval_utility eval_netlist)
  show "\<exists>ip' nl' g.
      InjectionPoint_inject ?ip example_netlist = (None, ip', nl') \<and>
      fet ip' = Some ''M3'' \<and>
      get_component_nodes (net nl') ''M3'' = Inr [''out'', g, ''VDD'', ''VDD'']"
    using insert_fet_bulk_is_source [of _ _ _ _ example_netlist _ nl' ?ip ip'] e r f p by auto
next
  let ?ob = "InverterObserver_init example_netlist ''out''"
  obtain r ob' nl' where e: "InverterObserver_inject ?ob example_netlist = (r, ob', nl')"
    by (cases "InverterObserver_inject ?ob example_netlist")
  have "fst (InverterObserver_inject ?ob example_netlist) = None"
    and "pmos (fst (snd (InverterObserver_inject ?ob example_netlist))) = Some ''M3''"
    and "nmos (fst (snd (InverterObserver_inject ?ob example_netlist))) = Some ''M4''"
    by (simp_all add: eval_utility eval_netlist)
  then have r: "r = None" and f: "pmos ob' = Some ''M3''" "nmos ob' = Some ''M4''"
    using e by simp_all
  have p: "observer_node ?ob = ''out''" "supply_node example_netlist = ''VDD''"
    "ground_node example_netlist = ''0''"
    by (simp_all add: eval_utility eval_netlist)
  show "\<exists>ob' nl'.
      InverterObserver_inject ?ob example_netlist = (None, ob', nl') \<and>
      pmos ob' = Some ''M3'' \<and> nmos ob' = Some ''M4'' \<and>
      get_component_nodes (net nl') ''M3'' = Inr [''out_INVERTER'', ''out'', ''VDD'', ''VDD''] \<and>
      get_component_nodes (net nl') ''M4'' = Inr [''out_INVERTER'', ''out'', ''0'', ''0'']"
    using insert_fet_bulk_is_source [of _ _ _ _ example_netlist _ nl' _ _ ?ob ob'] e r f p
    by (auto simp: NODE_POSTFIX_def)
qed

section \<open>The lifecycle guards\<close>

lemma fault_inject_rejected:
  assumes "fault_state f \<noteq> STATE_NOT_INJECTED"
  shows "fault_inject f nl = (Some AlreadyInjectedError, f, nl)"
  using assms
  by (cases "kind f")
     (simp_all add: fault_inject.simps DrainOpenFault_inject_def SourceOpenFault_inject_def
        GateOpenFault_inject_def GateDrainShort_inject_def GateSourceShort_inject_def
        DrainSourceShort_inject_def CapacitorShort_inject_def Short_inject_def
        Resistor_inject_def Fault_inject_def)

lemma OpenFault_eject_rejected:
  assumes "fault_state f = STATE_NOT_INJECTED"
  shows "\<exists>e nl'. OpenFault_eject f nl = (Some e, f, nl')"
  using assms
  by (auto simp: OpenFault_eject_def Fault_eject_def split: prod.splits option.splits)

lemma GateOpenFault_eject_rejected:
  assumes "fault_state f = STATE_NOT_INJECTED"
  shows "\<exists>e nl'. GateOpenFault_eject f nl = (Some e, f, nl')"
  using assms
  by (auto simp: GateOpenFault_eject_def Fault_eject_def split: prod.splits option.splits)

lemma Short_eject_rejected:
  assumes "fault_state f = STATE_NOT_INJECTED"
  shows "\<exists>e nl'. Short_eject f nl = (Some e, f, nl')"
  using assms
  by (auto simp: Short_eject_def Fault_eject_def split: prod.splits option.splits)

lemma Resistor_eject_rejected:
  assumes "fault_state f = STATE_NOT_INJECTED"
  shows "\<exists>e nl'. Resistor_eject f nl = (Some e, f, nl')"
  using assms
  by (auto simp: Resistor_eject_def Fault_eject_def split: prod.splits option.splits sum.splits)

lemma fault_eject_rejected:
  assumes "fault_state f = STATE_NOT_INJECTED"
  shows "\<exists>e nl'. fault_eject f nl = (Some e, f, nl')"
  using OpenFault_eject_rejected [OF assms] GateOpenFault_eject_rejected [OF assms]
    Short_eject_rejected [OF assms] Resistor_eject_rejected [OF assms]
  by (cases "kind f")
     (simp_all add: fault_eject.simps DrainOpenFault_eject_def SourceOpenFault_eject_def)

lemma inject_rejected:
  assumes "utility_state u \<noteq> STATE_NOT_INJECTED"
  shows "inject u nl = (Some AlreadyInjectedError, u, nl)"
  using assms
  by (cases "ukind u")
     (simp_all add: inject_def InverterObserver_inject_def InjectionPoint_inject_def
        TestUtility_inject_def)

lemma activate_rejected:
  "utility_state u = STATE_NOT_INJECTED \<Longrightarrow> activate u nl = (Some NotInjectedError, u, nl)"
  "utility_state u = STATE_ACTIVE \<Longrightarrow> activate u nl = (Some AlreadyActiveError, u, nl)"
  by (cases "ukind u";
      simp add: activate_def MeasureObserver_activate_def InjectionPoint_activate_def
        TestUtility_activate_def)+

lemma deactivate_rejected:
  "utility_state u = STATE_NOT_INJECTED \<Longrightarrow> deactivate u nl = (Some NotInjectedError, u, nl)"
  "utility_state u = STATE_INJECTED \<Longrightarrow> deactivate u nl = (Some NotActiveError, u, nl)"
  by (cases "ukind u";
      simp add: deactivate_def MeasureObserver_deactivate_def InjectionPoint_deactivate_def
        TestUtility_deactivate_def)+

lemma eject_rejected:
  assumes "utility_state u = STATE_NOT_INJECTED"
  shows "\<exists>e nl'. eject u nl = (Some e, u, nl')"
  using assms
  by (cases "ukind u")
     (auto simp: eject_def InverterObserver_eject_def InjectionPoint_eject_def
        TestUtility_eject_def split: prod.splits option.splits)

text \<open>
  C2, as stated, fails: \<open>eject\<close> on a drain-open fault that was never injected rewrites
  the transistor in the store (it moves to the end of the component list) and then
  fails with \<open>AttributeError\<close> on the resistor reference \<open>None\<close>, before the
  base-class guard that would raise \<open>NotInjectedError\<close> is reached.
\<close>

theorem eject_guard_runs_last_counterexample:
  "Fault_init DrainOpenFault example_netlist ''M1'' = Inr example_drain_open \<and>
   fault_state example_drain_open = STATE_NOT_INJECTED \<and>
   fst (fault_eject example_drain_open example_netlist) = Some AttributeError \<and>
   fst (fault_eject example_drain_open example_netlist) \<noteq> Some NotInjectedError \<and>
   get_components (net example_netlist) = [''M1'', ''M2'', ''R1'', ''C1''] \<and>
   get_components (net (snd (snd (fault_eject example_drain_open example_netlist))))
     = [''M2'', ''R1'', ''C1'', ''M1'']"
  by (simp add: example_drain_open_def eval_fault eval_netlist)

text \<open>
  C2, amended. For every fault and utility variant, \<open>inject\<close>, \<open>activate\<close> and
  \<open>deactivate\<close> check the state guard first: a rejected call raises the specified
  error and leaves the object and the netlist exactly as they were. \<open>eject\<close> from
  \<open>STATE_NOT_INJECTED\<close> always fails and leaves the object, hence its lifecycle
  state, unchanged; the base-class guard is called at the end of every \<open>eject\<close>
  override, so only a variant without an override (the plain measure observer) is
  certain to raise \<open>NotInjectedError\<close> with the netlist untouched.
\<close>

theorem rejected_lifecycle_calls:
  "(fault_state f \<noteq> STATE_NOT_INJECTED \<longrightarrow>
      fault_inject f nl = (Some AlreadyInjectedError, f, nl)) \<and>
   (utility_state u \<noteq> STATE_NOT_INJECTED \<longrightarrow>
      inject u nl = (Some AlreadyInjectedError, u, nl)) \<and>
   (utility_state u = STATE_NOT_INJECTED \<longrightarrow>
      activate u nl = (Some NotInjectedError, u, nl)) \<and>
   (utility_state u = STATE_ACTIVE \<longrightarrow>
      activate u nl = (Some AlreadyActiveError, u, nl)) \<and>
   (utility_state u = STATE_NOT_INJECTED \<longrightarrow>
      deactivate u nl = (Some NotInjectedError, u, nl)) \<and>
   (utility_state u = STATE_INJECTED \<longrightarrow>
      deactivate u nl = (Some NotActiveError, u, nl)) \<and>
   (fault_state f = STATE_NOT_INJECTED \<longrightarrow>
      (\<exists>e nl'. fault_eject f nl = (Some e, f, nl'))) \<and>
   (utility_state u = STATE_NOT_INJECTED \<longrightarrow>
      (\<exists>e nl'. eject u nl = (Some e, u, nl'))) \<and>
   (utility_state u = STATE_NOT_INJECTED \<and> ukind u = MeasureObserver \<longrightarrow>
      eject u nl = (Some NotInjectedError, u, nl))"
  using fault_inject_rejected [of f nl] inject_rejected [of u nl] activate_rejected [of u nl]
    deactivate_rejected [of u nl] fault_eject_rejected [of f nl] eject_rejected [of u nl]
  by (auto simp: eject_def TestUtility_eject_def)

theorem rejected_lifecycle_calls_witness:
  "fault_inject (example_drain_open\<lparr>fault_state := STATE_INJECTED\<rparr>) example_netlist
     = (Some AlreadyInjectedError, example_drain_open\<lparr>fault_state := STATE_INJECTED\<rparr>,
        example_netlist) \<and>
   inject (example_observer\<lparr>utility_state := STATE_ACTIVE\<rparr>) example_netlist
     = (Some AlreadyInjectedError, example_observer\<lparr>utility_state := STATE_ACTIVE\<rparr>,
        example_netlist) \<and>
   activate example_observer example_netlist
     = (Some NotInjectedError, example_observer, example_netlist) \<and>
   activate (example_observer\<lparr>utility_state := STATE_ACTIVE\<rparr>) example_netlist
     = (Some AlreadyActiveError, example_observer\<lparr>utility_state := STATE_ACTIVE\<rparr>,
        example_netlist) \<and>
   deactivate example_observer example_netlist
     = (Some NotInjectedError, example_observer, example_netlist) \<and>
   deactivate (example_observer\<lparr>utility_state := STATE_INJECTED\<rparr>) example_netlist
     = (Some NotActiveError, example_observer\<lparr>utility_state := STATE_INJECTED\<rparr>,
        example_netlist) \<and>
   (\<exists>e nl'. fault_eject example_drain_open example_netlist = (Some e, example_drain_open, nl')) \<and>
   eject example_observer example_netlist
     = (Some NotInjectedError, example_observer, example_netlist)"
proof -
  have s: "utility_state example_observer = STATE_NOT_INJECTED"
    "ukind example_observer = MeasureObserver"
    "fault_state example_drain_open = STATE_NOT_INJECTED"
    by (simp_all add: example_observer_def MeasureObserver_init_def example_drain_open_def)
  show ?thesis
    using rejected_lifecycle_calls
        [of "example_drain_open\<lparr>fault_state := STATE_INJECTED\<rparr>" example_netlist
            "example_observer\<lparr>utility_state := STATE_ACTIVE\<rparr>"]
      rejected_lifecycle_calls
        [of example_drain_open example_netlist example_observer]
      rejected_lifecycle_calls
        [of example_drain_open example_netlist
            "example_observer\<lparr>utility_state := STATE_INJECTED\<rparr>"]
      s
    by simp
qed

section \<open>The reference allocator\<close>

lemma scan_free_spec:
  "i \<le> scan_free refs p i \<and> p @ str_int (scan_free refs p i) \<notin> set refs \<and>
   (\<forall>j. i \<le> j \<and> j < scan_free refs p i \<longrightarrow> p @ str_int j \<in> set refs)"
proof (induction refs p i rule: scan_free.induct)
  case (1 refs p i)
  show ?case
  proof (cases "p @ str_int i \<in> set refs")
    case True
    then have e: "scan_free refs p i = scan_free refs p (i + 1)" by (rule scan_free_hit)
    have ih: "i + 1 \<le> scan_free refs p (i + 1) \<and>
              p @ str_int (scan_free refs p (i + 1)) \<notin> set refs \<and>
              (\<forall>j. i + 1 \<le> j \<and> j < scan_free refs p (i + 1) \<longrightarrow> p @ str_int j \<in> set refs)"
      using 1 True by simp
    have "p @ str_int j \<in> set refs" if "i \<le> j" "j < scan_free refs p (i + 1)" for j
    proof (cases "j = i")
      case True
      with \<open>p @ str_int i \<in> set refs\<close> show ?thesis by simp
    next
      case False
      with that ih show ?thesis by simp
    qed
    with ih e show ?thesis by simp
  next
    case False
    then show ?thesis by (auto simp: scan_free_miss)
  qed
qed

lemma insert_fet_cached:
  assumes "fet_descriptor_index nl = k" and "k \<noteq> - 1"
    and "''M'' @ str_int (k + 1) \<notin> set (get_components (net nl))"
  shows "insert_fet d g s m nl =
           (Inr (''M'' @ str_int (k + 1)),
            nl\<lparr>fet_descriptor_index := k + 1,
               net := (net nl)\<lparr>components := components (net nl) @
                 [\<lparr>reference = ''M'' @ str_int (k + 1), ports = [d, g, s, s], cvalue = m\<rparr>]\<rparr>\<rparr>)"
  using assms
  by (simp add: insert_fet_def get_next_fet_descriptor_index_def insert_component_def
        add_component_def Let_def)

lemma insert_fets_cached:
  assumes "fet_descriptor_index nl = k" and "1 \<le> k"
    and "\<forall>j > k. ''M'' @ str_int j \<notin> set (get_components (net nl))"
  shows "fst (insert_fets n d g s m nl) = Inr (map (\<lambda>i. ''M'' @ str_int i) [k + 1..k + int n])"
  using assms
proof (induction n arbitrary: nl k)
  case 0
  then show ?case by simp
next
  case (Suc n)
  let ?nl1 = "nl\<lparr>fet_descriptor_index := k + 1,
               net := (net nl)\<lparr>components := components (net nl) @
                 [\<lparr>reference = ''M'' @ str_int (k + 1), ports = [d, g, s, s], cvalue = m\<rparr>]\<rparr>\<rparr>"
  have e: "insert_fet d g s m nl = (Inr (''M'' @ str_int (k + 1)), ?nl1)"
    using Suc.prems by (intro insert_fet_cached) auto
  have fresh: "\<forall>j > k + 1. ''M'' @ str_int j \<notin> set (get_components (net ?nl1))"
    using Suc.prems(3) by (auto simp: get_components_def dest: str_int_inj)
  have ih: "fst (insert_fets n d g s m ?nl1)
              = Inr (map (\<lambda>i. ''M'' @ str_int i) [k + 1 + 1..k + 1 + int n])"
    using Suc.prems(2) fresh by (intro Suc.IH) auto
  have u: "[k + 1..k + int (Suc n)] = (k + 1) # [k + 1 + 1..k + 1 + int n]"
    by (subst upto_rec1) (simp_all add: algebra_simps)
  obtain x nl2 where p: "insert_fets n d g s m ?nl1 = (x, nl2)"
    by (cases "insert_fets n d g s m ?nl1")
  with ih have x: "x = Inr (map (\<lambda>i. ''M'' @ str_int i) [k + 1 + 1..k + 1 + int n])"
    by simp
  have "insert_fets (Suc n) d g s m nl =
          (Inr ((''M'' @ str_int (k + 1)) # map (\<lambda>i. ''M'' @ str_int i) [k + 1 + 1..k + 1 + int n]), nl2)"
    using e p x by simp
  then have "fst (insert_fets (Suc n) d g s m nl) =
          Inr (map (\<lambda>i. ''M'' @ str_int i) ((k + 1) # [k + 1 + 1..k + 1 + int n]))"
    by simp
  then show ?case unfolding u .
qed

text \<open>
  C6 at a concrete input: on a store holding the transistors M1 and M3 the first
  allocation scans to the free index 2 and caches it, and the second allocation returns
  the cached index plus one, 3, without looking at the store, although M3 is still in
  it. The reference handed out second is one that is present in the store.
\<close>

theorem allocator_hands_out_present_reference:
  "fet_descriptor_index gap_netlist = - 1 \<and>
   get_components (net gap_netlist) = [''M1'', ''M3''] \<and>
   fst (get_next_fet_descriptor_index gap_netlist) = 2 \<and>
   fst (get_next_fet_descriptor_index (snd (get_next_fet_descriptor_index gap_netlist))) = 3 \<and>
   get_components (net (snd (get_next_fet_descriptor_index
       (snd (get_next_fet_descriptor_index gap_netlist))))) = [''M1'', ''M3''] \<and>
   ''M'' @ str_int 3 = ''M3'' \<and>
   ''M'' @ str_int 3 \<in>
     set (get_components (net (snd (get_next_fet_descriptor_index
       (snd (get_next_fet_descriptor_index gap_netlist))))))"
  by (simp add: gap_netlist_def eval_netlist)

text \<open>
  What the allocator does guarantee, for each kind (transistor, source, resistor): the
  first allocation scans the store from index 1 upwards to the first unused reference,
  returns it and caches its index, so the first allocation is never a reference that is
  in the store; every later allocation returns the cached index plus one without
  looking at the store. Requesting N transistors in a row from an empty store yields
  exactly M1 .. MN in order; more generally (\<open>insert_fets_cached\<close>) later
  allocations stay fresh as long as the store holds no transistor reference above the
  cached index.
\<close>

lemma allocator_scan_then_increment:
  "(fet_descriptor_index nl = - 1 \<longrightarrow>
      (\<exists>i. get_next_fet_descriptor_index nl = (i, nl\<lparr>fet_descriptor_index := i\<rparr>) \<and>
           1 \<le> i \<and>
           ''M'' @ str_int i \<notin> set (get_components (net nl)) \<and>
           (\<forall>j. 1 \<le> j \<and> j < i \<longrightarrow> ''M'' @ str_int j \<in> set (get_components (net nl))))) \<and>
   (fet_descriptor_index nl \<noteq> - 1 \<longrightarrow>
      get_next_fet_descriptor_index nl =
        (fet_descriptor_index nl + 1,
         nl\<lparr>fet_descriptor_index := fet_descriptor_index nl + 1\<rparr>)) \<and>
   (fet_descriptor_index nl = - 1 \<and> components (net nl) = [] \<longrightarrow>
      fst (insert_fets n d g s m nl) = Inr (map (\<lambda>i. ''M'' @ str_int i) [1..int n])) \<and>
   (source_descriptor_index nl = - 1 \<longrightarrow>
      (\<exists>i. get_next_source_descriptor_index nl = (i, nl\<lparr>source_descriptor_index := i\<rparr>) \<and>
           1 \<le> i \<and>
           ''V'' @ str_int i \<notin> set (get_components (net nl)) \<and>
           (\<forall>j. 1 \<le> j \<and> j < i \<longrightarrow> ''V'' @ str_int j \<in> set (get_components (net nl))))) \<and>
   (source_descriptor_index nl \<noteq> - 1 \<longrightarrow>
      get_next_source_descriptor_index nl =
        (source_descriptor_index nl + 1,
         nl\<lparr>source_descriptor_index := source_descriptor_index nl + 1\<rparr>)) \<and>
   (resistor_descriptor_index nl = - 1 \<longrightarrow>
      (\<exists>i. get_next_resistor_descriptor_index nl = (i, nl\<lparr>resistor_descriptor_index := i\<rparr>) \<and>
           1 \<le> i \<and>
           ''R'' @ str_int i \<notin> set (get_components (net nl)) \<and>
           (\<forall>j. 1 \<le> j \<and> j < i \<longrightarrow> ''R'' @ str_int j \<in> set (get_components (net nl))))) \<and>
   (resistor_descriptor_index nl \<noteq> - 1 \<longrightarrow>
      get_next_resistor_descriptor_index nl =
        (resistor_descriptor_index nl + 1,
         nl\<lparr>resistor_descriptor_index := resistor_descriptor_index nl + 1\<rparr>))"
proof (intro conjI impI)
  assume "fet_descriptor_index nl = - 1"
  then show "\<exists>i. get_next_fet_descriptor_index nl = (i, nl\<lparr>fet_descriptor_index := i\<rparr>) \<and>
           1 \<le> i \<and>
           ''M'' @ str_int i \<notin> set (get_components (net nl)) \<and>
           (\<forall>j. 1 \<le> j \<and> j < i \<longrightarrow> ''M'' @ str_int j \<in> set (get_components (net nl)))"
    using scan_free_spec [of 1 "get_components (net nl)" "''M''"]
    by (simp add: get_next_fet_descriptor_index_def Let_def)
next
  assume "fet_descriptor_index nl \<noteq> - 1"
  then show "get_next_fet_descriptor_index nl =
        (fet_descriptor_index nl + 1,
         nl\<lparr>fet_descriptor_index := fet_descriptor_index nl + 1\<rparr>)"
    by (simp add: get_next_fet_descriptor_index_def Let_def)
next
  assume a: "fet_descriptor_index nl = - 1 \<and> components (net nl) = []"
  show "fst (insert_fets n d g s m nl) = Inr (map (\<lambda>i. ''M'' @ str_int i) [1..int n])"
  proof (cases n)
    case 0
    then show ?thesis by simp
  next
    case (Suc k)
    let ?nl1 = "nl\<lparr>fet_descriptor_index := 1,
               net := (net nl)\<lparr>components :=
                 [\<lparr>reference = ''M'' @ str_int 1, ports = [d, g, s, s], cvalue = m\<rparr>]\<rparr>\<rparr>"
    have e: "insert_fet d g s m nl = (Inr (''M'' @ str_int 1), ?nl1)"
      using a
      by (simp add: insert_fet_def get_next_fet_descriptor_index_def insert_component_def
            add_component_def get_components_def scan_free_miss Let_def)
    have ih: "fst (insert_fets k d g s m ?nl1) = Inr (map (\<lambda>i. ''M'' @ str_int i) [1 + 1..1 + int k])"
      by (intro insert_fets_cached) (auto simp: get_components_def dest: str_int_inj)
    have u: "[1..int n] = 1 # [1 + 1..1 + int k]"
      using Suc by (subst upto_rec1) (simp_all add: algebra_simps)
    obtain x nl2 where p: "insert_fets k d g s m ?nl1 = (x, nl2)"
      by (cases "insert_fets k d g s m ?nl1")
    with ih have x: "x = Inr (map (\<lambda>i. ''M'' @ str_int i) [1 + 1..1 + int k])"
      by simp
    have "insert_fets (Suc k) d g s m nl =
            (Inr ((''M'' @ str_int 1) # map (\<lambda>i. ''M'' @ str_int i) [1 + 1..1 + int k]), nl2)"
      using e p x by simp
    then have "fst (insert_fets n d g s m nl) =
            Inr (map (\<lambda>i. ''M'' @ str_int i) (1 # [1 + 1..1 + int k]))"
      using Suc by simp
    then show ?thesis unfolding u .
  qed
next
  assume "source_descriptor_index nl = - 1"
  then show "\<exists>i. get_next_source_descriptor_index nl = (i, nl\<lparr>source_descriptor_index := i\<rparr>) \<and>
           1 \<le> i \<and>
           ''V'' @ str_int i \<notin> set (get_components (net nl)) \<and>
           (\<forall>j. 1 \<le> j \<and> j < i \<longrightarrow> ''V'' @ str_int j \<in> set (get_components (net nl)))"
    using scan_free_spec [of 1 "get_components (net nl)" "''V''"]
    by (simp add: get_next_source_descriptor_index_def Let_def)
next
  assume "source_descriptor_index nl \<noteq> - 1"
  then show "get_next_source_descriptor_index nl =
        (source_descriptor_index nl + 1,
         nl\<lparr>source_descriptor_index := source_descriptor_index nl + 1\<rparr>)"
    by (simp add: get_next_source_descriptor_index_def Let_def)
next
  assume "resistor_descriptor_index nl = - 1"
  then show "\<exists>i. get_next_resistor_descriptor_index nl = (i, nl\<lparr>resistor_descriptor_index := i\<rparr>) \<and>
           1 \<le> i \<and>
           ''R'' @ str_int i \<notin> set (get_components (net nl)) \<and>
           (\<forall>j. 1 \<le> j \<and> j < i \<longrightarrow> ''R'' @ str_int j \<in> set (get_components (net nl)))"
    using scan_free_spec [of 1 "get_components (net nl)" "''R''"]
    by (simp add: get_next_resistor_descriptor_index_def Let_def)
next
  assume "resistor_descriptor_index nl \<noteq> - 1"
  then show "get_next_resistor_descriptor_index nl =
        (resistor_descriptor_index nl + 1,
         nl\<lparr>resistor_descriptor_index := resistor_descriptor_index nl + 1\<rparr>)"
    by (simp add: get_next_resistor_descriptor_index_def Let_def)
qed

lemma allocator_scan_then_increment_example:
  "fet_descriptor_index example_netlist = - 1 \<and>
   get_next_fet_descriptor_index example_netlist
     = (3, example_netlist\<lparr>fet_descriptor_index := 3\<rparr>) \<and>
   get_next_fet_descriptor_index (example_netlist\<lparr>fet_descriptor_index := 3\<rparr>)
     = (4, example_netlist\<lparr>fet_descriptor_index := 4\<rparr>) \<and>
   fst (insert_fets 3 ''a'' ''b'' ''c'' NMOS_MODEL
          (NetList_init \<lparr>components = [], instructions = []\<rparr> ''0'' ''VDD'' (33 / 10) 0))
     = Inr [''M1'', ''M2'', ''M3'']"
proof -
  let ?e = "NetList_init \<lparr>components = [], instructions = []\<rparr> ''0'' ''VDD'' (33 / 10) 0"
  have a: "fet_descriptor_index example_netlist = - 1"
    by (simp add: example_netlist_def NetList_init_def)
  have b: "get_next_fet_descriptor_index example_netlist
             = (3, example_netlist\<lparr>fet_descriptor_index := 3\<rparr>)"
    using allocator_scan_then_increment [of example_netlist, THEN conjunct1] a
    by (auto simp: eval_netlist)
  have c: "get_next_fet_descriptor_index (example_netlist\<lparr>fet_descriptor_index := 3\<rparr>)
             = (4, example_netlist\<lparr>fet_descriptor_index := 4\<rparr>)"
    using allocator_scan_then_increment
      [of "example_netlist\<lparr>fet_descriptor_index := 3\<rparr>", THEN conjunct2, THEN conjunct1]
    by simp
  have "[1..int 3] = [1, 2, 3]"
    by (simp add: upto.simps)
  then have d: "fst (insert_fets 3 ''a'' ''b'' ''c'' NMOS_MODEL ?e) = Inr [''M1'', ''M2'', ''M3'']"
    using allocator_scan_then_increment
      [of ?e 3 "''a''" "''b''" "''c''" NMOS_MODEL, THEN conjunct2, THEN conjunct2, THEN conjunct1]
    by (simp add: NetList_init_def str_int_small)
  show ?thesis using a b c d by simp
qed

section \<open>Injecting and then ejecting a fault\<close>








section \<open>Injecting, activating, deactivating and ejecting a utility\<close>


lemma view_remove_Xinstruction: "view (remove_Xinstruction p ed) x = view ed x"
  by (simp add: view_def remove_Xinstruction_def)



lemma TestUtility_eject_injected:
  assumes "utility_state u = STATE_INJECTED"
  shows "TestUtility_eject u nl = (None, u\<lparr>utility_state := STATE_NOT_INJECTED\<rparr>, nl)"
  using assms by (simp add: TestUtility_eject_def)





section \<open>The round trip\<close>





section \<open>Ejecting an active utility\<close>

text \<open>
  C3 at a concrete input: a pull-up injection point on node \<open>out\<close> of the example
  netlist is injected (source V1, transistor M3) and activated. \<open>eject\<close> then removes
  the transistor and the source and only afterwards reaches the implicit
  \<open>deactivate\<close> of the base class, whose value update of the removed source fails in
  the store: the call raises \<open>ComponentNotFound\<close> and leaves the utility in
  \<open>STATE_INJECTED\<close> with both of its components gone.
\<close>

theorem injection_point_eject_from_active_fails:
  "(case inject (InjectionPoint_init example_netlist ''out'' True) example_netlist of
      (r1, ip1, nl1) \<Rightarrow>
        (case activate ip1 nl1 of
           (r2, ip2, nl2) \<Rightarrow>
             (case eject ip2 nl2 of
                (r3, ip3, nl3) \<Rightarrow>
                  (r1, r2, utility_state ip2, source ip2, fet ip2, get_components (net nl2),
                   r3, utility_state ip3, get_components (net nl3)))))
   = (None, None, STATE_ACTIVE, Some ''V1'', Some ''M3'',
      [''M1'', ''M2'', ''R1'', ''C1'', ''V1'', ''M3''],
      Some ComponentNotFound, STATE_INJECTED, [''M1'', ''M2'', ''R1'', ''C1''])"
  by (simp add: eval_utility eval_netlist)

subsection \<open>Which utilities can be ejected while active\<close>

lemma MeasureObserver_eject_active:
  assumes "ukind u = MeasureObserver" and "utility_state u = STATE_ACTIVE"
  shows "eject u nl =
           (None, u\<lparr>utility_state := STATE_NOT_INJECTED\<rparr>,
            nl\<lparr>net := remove_Xinstruction
                     (''.meas TRAN '' @ meas_node u @ RESULT_NAME_POSTFIX) (net nl)\<rparr>)"
  using assms
  by (simp add: eject_def TestUtility_eject_def deactivate_def MeasureObserver_deactivate_def
        TestUtility_deactivate_def)

lemma InverterObserver_eject_active:
  assumes "ukind u = InverterObserver" and "utility_state u = STATE_ACTIVE"
    and "pmos u = Some p" and "nmos u = Some n" and "p \<noteq> n"
    and "view (net nl) p \<noteq> []" and "view (net nl) n \<noteq> []"
  shows "\<exists>nl'. eject u nl = (None, u\<lparr>utility_state := STATE_NOT_INJECTED\<rparr>, nl') \<and>
           instructions (net nl') =
             filter (\<lambda>i. \<not> matches_prefix (''.meas TRAN '' @ meas_node u @ RESULT_NAME_POSTFIX) i)
               (instructions (net nl)) \<and>
           (\<forall>x. view (net nl') x =
              (if x = p \<or> x = n then tl (view (net nl) x) else view (net nl) x))"
proof -
  obtain nl1 where m1: "remove_component (Some p) nl = (None, nl1)"
    using remove_component_ok [OF assms(6)] by blast
  note w1 = remove_component_view [OF m1]
  have "view (net nl1) n \<noteq> []" using w1(2) [of n] assms(5) assms(7) by simp
  then obtain nl2 where m2: "remove_component (Some n) nl1 = (None, nl2)"
    using remove_component_ok by blast
  note w2 = remove_component_view [OF m2]
  let ?nl' = "nl2\<lparr>net := remove_Xinstruction
                (''.meas TRAN '' @ meas_node u @ RESULT_NAME_POSTFIX) (net nl2)\<rparr>"
  have e: "eject u nl = (None, u\<lparr>utility_state := STATE_NOT_INJECTED\<rparr>, ?nl')"
    using assms(1-4) m1 m2
    by (simp add: eject_def InverterObserver_eject_def TestUtility_eject_def deactivate_def
          MeasureObserver_deactivate_def TestUtility_deactivate_def)
  have i: "instructions (net ?nl') =
             filter (\<lambda>i. \<not> matches_prefix (''.meas TRAN '' @ meas_node u @ RESULT_NAME_POSTFIX) i)
               (instructions (net nl))"
    using w1(3) w2(3) by (simp add: remove_Xinstruction_def)
  have v: "view (net ?nl') x =
              (if x = p \<or> x = n then tl (view (net nl) x) else view (net nl) x)" for x
    using w1(2) [of x] w2(2) [of x] assms(5) by (auto simp: view_remove_Xinstruction)
  show ?thesis using e i v by blast
qed

lemma distinct_view:
  assumes "distinct (get_components ed)"
  shows "length (view ed r) \<le> 1"
proof -
  have "distinct (map reference cs) \<Longrightarrow> length (filter (\<lambda>c. reference c = r) cs) \<le> 1"
    for cs :: "Component list"
  proof (induction cs)
    case Nil
    then show ?case by simp
  next
    case (Cons c cs)
    show ?case
    proof (cases "reference c = r")
      case True
      then have "r \<notin> reference ` set cs" using Cons.prems by auto
      then have "filter (\<lambda>c. reference c = r) cs = []"
        by (auto simp: filter_empty_conv)
      with True show ?thesis by simp
    next
      case False
      then show ?thesis using Cons by simp
    qed
  qed
  then show ?thesis using assms by (simp add: get_components_def view_def)
qed

text \<open>
  On a store whose references are unique, no active injection point can be ejected:
  the source is gone by the time the implicit \<open>deactivate\<close> updates its value.
\<close>

lemma InjectionPoint_eject_active_fails:
  assumes k: "ukind u = InjectionPoint" and s: "utility_state u = STATE_ACTIVE"
    and d: "distinct (get_components (net nl))"
  shows "fst (eject u nl) \<noteq> None"
proof
  assume "fst (eject u nl) = None"
  then obtain u' nl' where e: "InjectionPoint_eject u nl = (None, u', nl')"
    using k by (cases "eject u nl") (auto simp: eject_def)
  obtain nl1 where m1: "remove_component (fet u) nl = (None, nl1)"
    using e by (auto simp: InjectionPoint_eject_def split: prod.splits option.splits)
  obtain nl2 where m2: "remove_component (source u) nl1 = (None, nl2)"
    and t: "TestUtility_eject u nl2 = (None, u', nl')"
    using e m1 by (auto simp: InjectionPoint_eject_def split: prod.splits option.splits)
  note w1 = remove_component_view [OF m1]
  note w2 = remove_component_view [OF m2]
  obtain v where v: "source u = Some v" using w2(1) by blast
  have "length (view (net nl) v) \<le> 1" using d by (rule distinct_view)
  then have "length (view (net nl1) v) \<le> 1" using w1(2) [of v] by (simp split: if_splits)
  then have gone: "view (net nl2) v = []"
    using w2(2) [of v] v by (cases "view (net nl1) v") auto
  have "v \<notin> set (get_components (net nl2))"
    using gone by (simp add: mem_get_components)
  then have "\<exists>x nlx. set_component_value (Some v) x nl2 = (Some ComponentNotFound, nlx)" for x
    by (simp add: set_component_value_def net_set_component_value_def)
  then have "fst (InjectionPoint_deactivate u nl2) \<noteq> None"
    using s v
    by (auto simp: InjectionPoint_deactivate_def TestUtility_deactivate_def
          set_component_value_def net_set_component_value_def split: prod.splits)
  then show False
    using t s k
    by (auto simp: TestUtility_eject_def deactivate_def split: prod.splits option.splits)
qed

end
